theory Spec2Isabelle
  imports Complex_Main
begin

section \<open>Numbers\<close>

text \<open>
  The loan service computes with JavaScript numbers, which are IEEE 754 doubles. A number
  is \<open>NaN\<close>, \<open>+Infinity\<close>, \<open>-Infinity\<close> or \<open>Fin x\<close>, where \<open>x\<close> is the real
  value of a finite double. The two zeros are one value, as \<open>===\<close> has them, and a zero
  divisor is the positive zero (the only zero divisor the service can produce is
  \<open>x - x\<close>, which is \<open>+0\<close>).

  \<open>fl\<close> rounds a real to the nearest double, a tie going to the even significand: the
  quantum of a real \<open>x\<close> is \<open>2\<close> to the power \<open>ulp_exp x\<close> (52 binary places below
  the leading bit, and never below \<open>2 powr - 1074\<close>, the quantum of the subnormal numbers),
  the result is the multiple of the quantum nearest to \<open>x\<close>, and a result of magnitude
  \<open>2 ^ 1024\<close> or more is the infinity of its sign.
\<close>

datatype jsnum = NaN | PosInf | NegInf | Fin real

definition round_half_even :: "real \<Rightarrow> int" where
  "round_half_even r =
     (let f = \<lfloor>r\<rfloor>
      in if r - of_int f < 1 / 2 then f
         else if 1 / 2 < r - of_int f then f + 1
         else if even f then f else f + 1)"

definition ulp_exp :: "real \<Rightarrow> int" where
  "ulp_exp x = max \<lfloor>log 2 \<bar>x\<bar>\<rfloor> (- 1022) - 52"

definition fl :: "real \<Rightarrow> jsnum" where
  "fl x =
     (if x = 0 then Fin 0
      else let q = 2 powr of_int (ulp_exp x);
               y = of_int (round_half_even (x / q)) * q
           in if 2 ^ 1024 \<le> y then PosInf
              else if y \<le> - (2 ^ 1024) then NegInf
              else Fin y)"

text \<open>
  The operators: the special values follow the ECMAScript rules for each operator, and
  the exact result of an operation on finite numbers is rounded by \<open>fl\<close>.
\<close>

definition inf_of_sign :: "real \<Rightarrow> jsnum" where
  "inf_of_sign s = (if s > 0 then PosInf else if s < 0 then NegInf else NaN)"

fun sign_of :: "jsnum \<Rightarrow> real" where
  "sign_of NaN = 0"
| "sign_of PosInf = 1"
| "sign_of NegInf = - 1"
| "sign_of (Fin x) = sgn x"

fun js_neg :: "jsnum \<Rightarrow> jsnum" where
  "js_neg NaN = NaN"
| "js_neg PosInf = NegInf"
| "js_neg NegInf = PosInf"
| "js_neg (Fin x) = Fin (- x)"

fun js_add :: "jsnum \<Rightarrow> jsnum \<Rightarrow> jsnum" where
  "js_add NaN _ = NaN"
| "js_add _ NaN = NaN"
| "js_add (Fin x) (Fin y) = fl (x + y)"
| "js_add PosInf NegInf = NaN"
| "js_add NegInf PosInf = NaN"
| "js_add PosInf _ = PosInf"
| "js_add NegInf _ = NegInf"
| "js_add (Fin x) PosInf = PosInf"
| "js_add (Fin x) NegInf = NegInf"

definition js_sub :: "jsnum \<Rightarrow> jsnum \<Rightarrow> jsnum" where
  "js_sub a b = js_add a (js_neg b)"

fun js_mul :: "jsnum \<Rightarrow> jsnum \<Rightarrow> jsnum" where
  "js_mul NaN _ = NaN"
| "js_mul _ NaN = NaN"
| "js_mul (Fin x) (Fin y) = fl (x * y)"
| "js_mul a b = inf_of_sign (sign_of a * sign_of b)"

fun js_div :: "jsnum \<Rightarrow> jsnum \<Rightarrow> jsnum" where
  "js_div NaN _ = NaN"
| "js_div _ NaN = NaN"
| "js_div (Fin x) (Fin y) = (if y = 0 then inf_of_sign (sgn x) else fl (x / y))"
| "js_div (Fin x) _ = Fin 0"
| "js_div a (Fin y) = inf_of_sign (sign_of a * (if y < 0 then - 1 else 1))"
| "js_div a b = NaN"

fun js_lt :: "jsnum \<Rightarrow> jsnum \<Rightarrow> bool" where
  "js_lt NaN _ = False"
| "js_lt _ NaN = False"
| "js_lt (Fin x) (Fin y) = (x < y)"
| "js_lt NegInf NegInf = False"
| "js_lt NegInf _ = True"
| "js_lt PosInf _ = False"
| "js_lt (Fin x) PosInf = True"
| "js_lt (Fin x) NegInf = False"

definition js_gt :: "jsnum \<Rightarrow> jsnum \<Rightarrow> bool" where
  "js_gt a b = js_lt b a"

definition js_le :: "jsnum \<Rightarrow> jsnum \<Rightarrow> bool" where
  "js_le a b = (a \<noteq> NaN \<and> b \<noteq> NaN \<and> \<not> js_lt b a)"

definition js_ge :: "jsnum \<Rightarrow> jsnum \<Rightarrow> bool" where
  "js_ge a b = js_le b a"

text \<open>
  \<open>Math.round\<close>: the nearest integer, a tie going up; the special values are kept. The
  result is exact: a double of magnitude \<open>2 ^ 52\<close> or more is an integer already, and a
  smaller integer is a double.
\<close>

fun Math_round :: "jsnum \<Rightarrow> jsnum" where
  "Math_round (Fin x) = Fin (of_int \<lfloor>x + 1 / 2\<rfloor>)"
| "Math_round n = n"

text \<open>\<open>Math.max\<close> of two arguments: \<open>NaN\<close> as soon as one argument is.\<close>

definition Math_max :: "jsnum \<Rightarrow> jsnum \<Rightarrow> jsnum" where
  "Math_max a b = (if a = NaN \<or> b = NaN then NaN else if js_lt a b then b else a)"

section \<open>Values, coercions and the runtime\<close>

text \<open>
  The request reaches the service as the parsed JSON body, so a value is \<open>undefined\<close>,
  \<open>null\<close>, a boolean, a number, a string, an array or a plain object (its own
  properties in order, the first binding of a key being the one read). Functions and
  symbols do not occur in parsed JSON.
\<close>

datatype jsval =
    Undefined
  | Null
  | Bool bool
  | Num jsnum
  | Str string
  | Arr "jsval list"
  | Obj "(string \<times> jsval) list"

datatype exn = TypeError string

text \<open>
  What the engine decides and the source does not: how a number prints, how a string
  parses as a number, the texts of the engine's own \<open>TypeError\<close>s,
  \<open>process.env.NODE_ENV\<close>, the value of \<open>Math.pow\<close> where ECMAScript leaves it
  implementation-approximated (a finite base and a finite exponent, both not zero), and
  how many entries of a schedule the heap can hold.
\<close>

record runtime =
  numberToString :: "jsnum \<Rightarrow> string"
  stringToNumber :: "string \<Rightarrow> jsnum"
  cannotReadMessage :: "jsval \<Rightarrow> string \<Rightarrow> string"
  cannotConvertMessage :: string
  nodeEnv :: "string option"
  powApprox :: "real \<Rightarrow> real \<Rightarrow> jsnum"
  heapEntries :: nat

definition bind_exn :: "exn + 'a \<Rightarrow> ('a \<Rightarrow> exn + 'b) \<Rightarrow> exn + 'b" where
  "bind_exn m f = (case m of Inl e \<Rightarrow> Inl e | Inr v \<Rightarrow> f v)"

fun truthy :: "jsval \<Rightarrow> bool" where
  "truthy Undefined = False"
| "truthy Null = False"
| "truthy (Bool b) = b"
| "truthy (Num n) = (n \<noteq> NaN \<and> n \<noteq> Fin 0)"
| "truthy (Str s) = (s \<noteq> [])"
| "truthy (Arr xs) = True"
| "truthy (Obj kvs) = True"

text \<open>
  Reading property \<open>p\<close> of a value, for the names this module reads (the request fields,
  \<open>token\<close>, \<open>data\<close>, \<open>backRedirectionURL\<close> and \<open>length\<close>): \<open>null\<close> and
  \<open>undefined\<close> throw, an object gives its own property, a string and an array have
  \<open>length\<close>, and everything else is \<open>undefined\<close>.
\<close>

definition own_prop :: "(string \<times> jsval) list \<Rightarrow> string \<Rightarrow> jsval" where
  "own_prop kvs p = (case map_of kvs p of None \<Rightarrow> Undefined | Some v \<Rightarrow> v)"

fun get_prop :: "runtime \<Rightarrow> jsval \<Rightarrow> string \<Rightarrow> exn + jsval" where
  "get_prop rt Undefined p = Inl (TypeError (cannotReadMessage rt Undefined p))"
| "get_prop rt Null p = Inl (TypeError (cannotReadMessage rt Null p))"
| "get_prop rt (Obj kvs) p = Inr (own_prop kvs p)"
| "get_prop rt (Str s) p = Inr (if p = ''length'' then Num (Fin (real (length s))) else Undefined)"
| "get_prop rt (Arr xs) p = Inr (if p = ''length'' then Num (Fin (real (length xs))) else Undefined)"
| "get_prop rt v p = Inr Undefined"

fun join_comma :: "string list \<Rightarrow> string" where
  "join_comma [] = []"
| "join_comma [s] = s"
| "join_comma (s # t # ss) = s @ '','' @ join_comma (t # ss)"

fun sequence_exn :: "(exn + 'a) list \<Rightarrow> exn + 'a list" where
  "sequence_exn [] = Inr []"
| "sequence_exn (m # ms) =
     bind_exn m (\<lambda>v. bind_exn (sequence_exn ms) (\<lambda>vs. Inr (v # vs)))"

text \<open>
  \<open>ToString\<close>. An array joins the strings of its elements with commas, \<open>null\<close> and
  \<open>undefined\<close> elements being empty. A plain object prints through the inherited
  \<open>Object.prototype.toString\<close>; when it has an own property \<open>toString\<close> (never a
  function in parsed JSON) neither \<open>toString\<close> nor \<open>valueOf\<close> yields a primitive and
  the conversion throws.
\<close>

fun toString :: "runtime \<Rightarrow> jsval \<Rightarrow> exn + string" where
  "toString rt Undefined = Inr ''undefined''"
| "toString rt Null = Inr ''null''"
| "toString rt (Bool b) = Inr (if b then ''true'' else ''false'')"
| "toString rt (Num n) = Inr (numberToString rt n)"
| "toString rt (Str s) = Inr s"
| "toString rt (Arr xs) =
     bind_exn
       (sequence_exn
          (map (\<lambda>x. if x = Undefined \<or> x = Null then Inr [] else toString rt x) xs))
       (\<lambda>ss. Inr (join_comma ss))"
| "toString rt (Obj kvs) =
     (if map_of kvs ''toString'' \<noteq> None then Inl (TypeError (cannotConvertMessage rt))
      else Inr ''[object Object]'')"

text \<open>\<open>ToNumber\<close>, as the comparison \<open>>=\<close> applies it to its left operand.\<close>

fun toNumber :: "runtime \<Rightarrow> jsval \<Rightarrow> exn + jsnum" where
  "toNumber rt Undefined = Inr NaN"
| "toNumber rt Null = Inr (Fin 0)"
| "toNumber rt (Bool b) = Inr (Fin (if b then 1 else 0))"
| "toNumber rt (Num n) = Inr n"
| "toNumber rt (Str s) = Inr (stringToNumber rt s)"
| "toNumber rt v = bind_exn (toString rt v) (\<lambda>s. Inr (stringToNumber rt s))"

section \<open>The EMI calculator\<close>

text \<open>
  \<open>Math.pow\<close>, case by case as in ECMAScript's \<open>Number::exponentiate\<close>: a \<open>NaN\<close>
  exponent, a zero exponent, a \<open>NaN\<close> base, the infinite bases, a zero base, the infinite
  exponents, a negative base with a fractional exponent, and last the
  implementation-approximated power of the engine.
\<close>

definition odd_integer :: "real \<Rightarrow> bool" where
  "odd_integer e = (e \<in> \<int> \<and> odd \<lfloor>e\<rfloor>)"

fun Math_pow :: "runtime \<Rightarrow> jsnum \<Rightarrow> jsnum \<Rightarrow> jsnum" where
  "Math_pow rt b NaN = NaN"
| "Math_pow rt b (Fin e) =
     (if e = 0 then Fin 1
      else case b of
        NaN \<Rightarrow> NaN
      | PosInf \<Rightarrow> (if e > 0 then PosInf else Fin 0)
      | NegInf \<Rightarrow> (if e > 0 then (if odd_integer e then NegInf else PosInf) else Fin 0)
      | Fin x \<Rightarrow>
          (if x = 0 then (if e > 0 then Fin 0 else PosInf)
           else if x < 0 \<and> e \<notin> \<int> then NaN
           else powApprox rt x e))"
| "Math_pow rt b PosInf =
     (case b of
        NaN \<Rightarrow> NaN
      | Fin x \<Rightarrow> (if \<bar>x\<bar> > 1 then PosInf else if \<bar>x\<bar> = 1 then NaN else Fin 0)
      | _ \<Rightarrow> PosInf)"
| "Math_pow rt b NegInf =
     (case b of
        NaN \<Rightarrow> NaN
      | Fin x \<Rightarrow> (if \<bar>x\<bar> > 1 then Fin 0 else if \<bar>x\<bar> = 1 then NaN else PosInf)
      | _ \<Rightarrow> Fin 0)"

text \<open>
  \<^verbatim>\<open>
  const calculateEMI = (principal, roi, tenure) => {
    const monthlyRate = roi / (12 * 100);
    const emi = principal * monthlyRate * Math.pow(1 + monthlyRate, tenure)
                / (Math.pow(1 + monthlyRate, tenure) - 1);
    return Math.round(emi * 100) / 100;
  };
  \<close>
  The function has no check of its arguments and no failure path.
\<close>

definition monthlyRate_of :: "jsnum \<Rightarrow> jsnum" where
  "monthlyRate_of roi = js_div roi (js_mul (Fin 12) (Fin 100))"

definition round2 :: "jsnum \<Rightarrow> jsnum" where
  "round2 x = js_div (Math_round (js_mul x (Fin 100))) (Fin 100)"

definition calculateEMI :: "runtime \<Rightarrow> jsnum \<Rightarrow> jsnum \<Rightarrow> jsnum \<Rightarrow> jsnum" where
  "calculateEMI rt princ roi tenure =
     (let monthlyRate = monthlyRate_of roi;
          emi = js_div
                  (js_mul (js_mul princ monthlyRate)
                          (Math_pow rt (js_add (Fin 1) monthlyRate) tenure))
                  (js_sub (Math_pow rt (js_add (Fin 1) monthlyRate) tenure) (Fin 1))
      in round2 emi)"

section \<open>The amortization schedule\<close>

text \<open>
  \<^verbatim>\<open>
  const generateAmortizationSchedule = (principal, roi, tenure) => {
    const monthlyRate = roi / (12 * 100);
    const emi = calculateEMI(principal, roi, tenure);
    const schedule = [];
    let balance = principal;
    for (let month = 1; month <= tenure; month++) {
      const interest = balance * monthlyRate;
      const principalPaid = emi - interest;
      balance -= principalPaid;
      schedule.push({
        month,
        emi: Math.round(emi * 100) / 100,
        principalPaid: Math.round(principalPaid * 100) / 100,
        interestPaid: Math.round(interest * 100) / 100,
        balance: Math.max(0, Math.round(balance * 100) / 100)
      });
    }
    return schedule;
  };
  \<close>
  The loop counter is a number, incremented by the addition of doubles. The array cannot
  grow beyond \<open>2 ^ 32 - 1\<close> entries (\<open>push\<close> throws a \<open>RangeError\<close>) nor beyond what
  the heap holds (the process is aborted): in both cases the call returns no schedule,
  which is the value \<open>None\<close>. The loop is the recursion \<open>schedule_loop\<close> on the local
  state (counter, running balance, entries pushed so far); it terminates because the
  array is bounded.
\<close>

record entry =
  month :: jsnum
  emi :: jsnum
  principalPaid :: jsnum
  interestPaid :: jsnum
  balance :: jsnum

definition schedule_entry :: "jsnum \<Rightarrow> jsnum \<Rightarrow> jsnum \<Rightarrow> jsnum \<Rightarrow> entry" where
  "schedule_entry rate e mth bal =
     (let interest = js_mul bal rate;
          ppaid = js_sub e interest;
          bal' = js_sub bal ppaid
      in \<lparr>month = mth,
          emi = round2 e,
          principalPaid = round2 ppaid,
          interestPaid = round2 interest,
          balance = Math_max (Fin 0) (round2 bal')\<rparr>)"

definition next_balance :: "jsnum \<Rightarrow> jsnum \<Rightarrow> jsnum \<Rightarrow> jsnum" where
  "next_balance rate e bal = js_sub bal (js_sub e (js_mul bal rate))"

definition capacity :: "runtime \<Rightarrow> nat" where
  "capacity rt = min (heapEntries rt) (2 ^ 32 - 1)"

function schedule_loop ::
  "runtime \<Rightarrow> jsnum \<Rightarrow> jsnum \<Rightarrow> jsnum \<Rightarrow> jsnum \<Rightarrow> jsnum \<Rightarrow> entry list \<Rightarrow> entry list option"
  where
  "schedule_loop rt tenure rate e mth bal schedule =
     (if js_le mth tenure
      then if length schedule < capacity rt
           then schedule_loop rt tenure rate e (js_add mth (Fin 1)) (next_balance rate e bal)
                  (schedule @ [schedule_entry rate e mth bal])
           else None
      else Some schedule)"
  by pat_completeness auto

termination
  by (relation "measure (\<lambda>(rt, tenure, rate, e, mth, bal, schedule).
                   capacity rt - length schedule)") auto

declare schedule_loop.simps [simp del]

definition generateAmortizationSchedule ::
  "runtime \<Rightarrow> jsnum \<Rightarrow> jsnum \<Rightarrow> jsnum \<Rightarrow> entry list option" where
  "generateAmortizationSchedule rt princ roi tenure =
     schedule_loop rt tenure (monthlyRate_of roi) (calculateEMI rt princ roi tenure)
       (Fin 1) princ []"

text \<open>The entries of \<open>n\<close> more turns of the loop, from counter \<open>mth\<close> and balance \<open>bal\<close>.\<close>

fun schedule_steps :: "nat \<Rightarrow> jsnum \<Rightarrow> jsnum \<Rightarrow> jsnum \<Rightarrow> jsnum \<Rightarrow> entry list" where
  "schedule_steps 0 rate e mth bal = []"
| "schedule_steps (Suc n) rate e mth bal =
     schedule_entry rate e mth bal
     # schedule_steps n rate e (js_add mth (Fin 1)) (next_balance rate e bal)"

text \<open>How many turns the loop takes for a tenure, when the array can grow that far.\<close>

fun turns :: "jsnum \<Rightarrow> nat" where
  "turns (Fin t) = nat \<lfloor>t\<rfloor>"
| "turns _ = 0"

section \<open>Configuration\<close>

text \<open>
  \<^verbatim>\<open>
  errorCodes: { invalidToken: "E001", missingParameters: "E002", invalidLoanAmount: "E003",
                invalidTenure: "E004", serverError: "E999" },
  loan: { minAmount: 10000, maxAmount: 10000000, minTenure: 3, maxTenure: 84,
          minRoi: 5.5, maxRoi: 24.0 },
  validation: { orderIdRegex: /^ORD[0-9]{6,10}$/, transactionIdRegex: /^TXN[0-9]{4,12}$/ }
  \<close>
  The environment overrides of \<open>config.js\<close> touch none of these.
\<close>

record errorCodes_t =
  invalidToken :: string
  missingParameters :: string
  invalidLoanAmount :: string
  invalidTenure :: string
  serverError_code :: string

record statusCodes_t =
  success :: string
  error :: string

record loan_t =
  minAmount :: jsnum
  maxAmount :: jsnum
  minTenure :: jsnum
  maxTenure :: jsnum
  minRoi :: jsnum
  maxRoi :: jsnum

record validation_t =
  orderIdRegex :: "string \<Rightarrow> bool"
  transactionIdRegex :: "string \<Rightarrow> bool"

record config_t =
  statusCodes :: statusCodes_t
  errorCodes :: errorCodes_t
  loan :: loan_t
  validation :: validation_t

definition is_digit :: "char \<Rightarrow> bool" where
  "is_digit c = (c \<in> set ''0123456789'')"

text \<open>The regular expression \<open>/^PRE[0-9]{lo,hi}$/\<close>: the whole string is matched.\<close>

definition prefix_digits :: "string \<Rightarrow> nat \<Rightarrow> nat \<Rightarrow> string \<Rightarrow> bool" where
  "prefix_digits pre lo hi s =
     (take (length pre) s = pre \<and>
      lo \<le> length s - length pre \<and> length s - length pre \<le> hi \<and>
      list_all is_digit (drop (length pre) s))"

definition config :: config_t where
  "config =
     \<lparr>statusCodes = \<lparr>success = ''SR'', error = ''ER''\<rparr>,
      errorCodes = \<lparr>invalidToken = ''E001'', missingParameters = ''E002'',
                     invalidLoanAmount = ''E003'', invalidTenure = ''E004'',
                     serverError_code = ''E999''\<rparr>,
      loan = \<lparr>minAmount = Fin 10000, maxAmount = Fin 10000000,
               minTenure = Fin 3, maxTenure = Fin 84,
               minRoi = Fin 5.5, maxRoi = Fin 24\<rparr>,
      validation = \<lparr>orderIdRegex = prefix_digits ''ORD'' 6 10,
                     transactionIdRegex = prefix_digits ''TXN'' 4 12\<rparr>\<rparr>"

text \<open>\<open>regex.test(v)\<close> converts its argument to a string first.\<close>

definition regex_test :: "runtime \<Rightarrow> (string \<Rightarrow> bool) \<Rightarrow> jsval \<Rightarrow> exn + bool" where
  "regex_test rt re v = bind_exn (toString rt v) (\<lambda>s. Inr (re s))"

section \<open>Response envelopes\<close>

text \<open>
  \<^verbatim>\<open>
  const successResponse = (data = {}, message = "Success") =>
    ({ data, statusMessage: message, statusCode: config.statusCodes.success });
  const errorResponse = (errorCode, errorMessage) =>
    ({ data: { errorMessage, errorCode, redirectionURL: "" },
       statusMessage: "Error", statusCode: config.statusCodes.error });
  const authError = (errorMessage) => errorResponse(config.errorCodes.invalidToken, errorMessage);
  const serverError = (error) => {
    const errorMessage = process.env.NODE_ENV === "production"
      ? "Internal server error" : error.message || "Unknown server error";
    return errorResponse(config.errorCodes.serverError, errorMessage);
  };
  \<close>
  An absent \<open>errorCode\<close> (\<open>undefined\<close>) is \<open>None\<close>.
\<close>

record payload =
  errorMessage :: string
  payload_errorCode :: "string option"
  redirectionURL :: jsval

record response =
  data :: payload
  statusMessage :: string
  statusCode :: string

definition successResponse :: "payload \<Rightarrow> response" where
  "successResponse d =
     \<lparr>data = d, statusMessage = ''Success'', statusCode = success (statusCodes config)\<rparr>"

definition errorResponse :: "string option \<Rightarrow> string \<Rightarrow> response" where
  "errorResponse code msg =
     \<lparr>data = \<lparr>errorMessage = msg, payload_errorCode = code, redirectionURL = Str []\<rparr>,
      statusMessage = ''Error'', statusCode = error (statusCodes config)\<rparr>"

definition authError :: "string \<Rightarrow> response" where
  "authError msg = errorResponse (Some (invalidToken (errorCodes config))) msg"

fun serverError :: "runtime \<Rightarrow> exn \<Rightarrow> response" where
  "serverError rt (TypeError msg) =
     errorResponse (Some (serverError_code (errorCodes config)))
       (if nodeEnv rt = Some ''production'' then ''Internal server error''
        else if msg \<noteq> [] then msg else ''Unknown server error'')"

section \<open>Token and request validation\<close>

text \<open>
  \<^verbatim>\<open>
  const validateToken = (token) => {
    return token && token.length >= 32;
  };
  \<close>
  The result is the token itself when it is falsy, and the comparison otherwise.
\<close>

definition validateToken :: "runtime \<Rightarrow> jsval \<Rightarrow> exn + jsval" where
  "validateToken rt token =
     (if \<not> truthy token then Inr token
      else bind_exn (get_prop rt token ''length'') (\<lambda>len.
           bind_exn (toNumber rt len) (\<lambda>n.
           Inr (Bool (js_ge n (Fin 32))))))"

record ValidationResult =
  isValid :: bool
  errorCode :: "string option"
  message :: string

definition requiredFields :: "string list" where
  "requiredFields =
     [''orderId'', ''transactionId'', ''loanAmount'', ''roi'', ''tenure'',
      ''downpayment'', ''processingFee'', ''tvsTransactionId'']"

text \<open>
  \<^verbatim>\<open>
  for (const field of requiredFields) {
    if (data[field] === undefined || data[field] === null) {
      return { isValid: false, errorCode: config.errorCodes.missingParameters,
               message: `Missing required parameter: ${field}` };
    }
  }
  \<close>
  \<open>None\<close> when the loop ends without returning.
\<close>

fun check_required :: "runtime \<Rightarrow> jsval \<Rightarrow> string list \<Rightarrow> exn + ValidationResult option" where
  "check_required rt d [] = Inr None"
| "check_required rt d (name # names) =
     bind_exn (get_prop rt d name) (\<lambda>v.
       if v = Undefined \<or> v = Null
       then Inr (Some \<lparr>isValid = False,
                       errorCode = Some (missingParameters (errorCodes config)),
                       message = ''Missing required parameter: '' @ name\<rparr>)
       else check_required rt d names)"

text \<open>
  A range check \<open>typeof x !== "number" || x < lo || x > hi\<close>: the comparisons are only
  reached by a number.
\<close>

fun out_of_range :: "jsval \<Rightarrow> jsnum \<Rightarrow> jsnum \<Rightarrow> bool" where
  "out_of_range (Num n) lo hi = (js_lt n lo \<or> js_gt n hi)"
| "out_of_range v lo hi = True"

fun not_nonneg_number :: "jsval \<Rightarrow> bool" where
  "not_nonneg_number (Num n) = js_lt n (Fin 0)"
| "not_nonneg_number v = True"

text \<open>
  The checks after the required fields, in the order of the source. The texts built from
  the configured bounds are the template strings of the source with the bounds printed
  (\<open>10000\<close>, \<open>10000000\<close>, \<open>3\<close>, \<open>84\<close>, \<open>5.5\<close>, \<open>24\<close>).
\<close>

definition invalid_result :: "string \<Rightarrow> string \<Rightarrow> ValidationResult" where
  "invalid_result code msg = \<lparr>isValid = False, errorCode = Some code, message = msg\<rparr>"

definition validateLoanRequest :: "runtime \<Rightarrow> jsval \<Rightarrow> exn + ValidationResult" where
  "validateLoanRequest rt d =
     bind_exn (check_required rt d requiredFields) (\<lambda>missing.
     case missing of
       Some r \<Rightarrow> Inr r
     | None \<Rightarrow>
     bind_exn (get_prop rt d ''orderId'') (\<lambda>orderId.
     bind_exn (regex_test rt (orderIdRegex (validation config)) orderId) (\<lambda>okOrder.
     if \<not> okOrder
     then Inr (invalid_result (missingParameters (errorCodes config))
                 ''Order ID format is invalid'')
     else
     bind_exn (get_prop rt d ''transactionId'') (\<lambda>transactionId.
     bind_exn (regex_test rt (transactionIdRegex (validation config)) transactionId) (\<lambda>okTxn.
     if \<not> okTxn
     then Inr (invalid_result (missingParameters (errorCodes config))
                 ''Transaction ID format is invalid'')
     else
     bind_exn (get_prop rt d ''loanAmount'') (\<lambda>loanAmount.
     if out_of_range loanAmount (minAmount (loan config)) (maxAmount (loan config))
     then Inr (invalid_result (invalidLoanAmount (errorCodes config))
                 ''Loan amount must be between 10000 and 10000000'')
     else
     bind_exn (get_prop rt d ''tenure'') (\<lambda>tenure.
     if out_of_range tenure (minTenure (loan config)) (maxTenure (loan config))
     then Inr (invalid_result (invalidTenure (errorCodes config))
                 ''Tenure must be between 3 and 84 months'')
     else
     bind_exn (get_prop rt d ''roi'') (\<lambda>roi.
     if out_of_range roi (minRoi (loan config)) (maxRoi (loan config))
     then Inr (invalid_result (missingParameters (errorCodes config))
                 ''ROI must be between 5.5% and 24%'')
     else
     bind_exn (get_prop rt d ''downpayment'') (\<lambda>downpayment.
     if not_nonneg_number downpayment
     then Inr (invalid_result (missingParameters (errorCodes config))
                 ''Downpayment must be a non-negative number'')
     else Inr \<lparr>isValid = True, errorCode = None, message = []\<rparr>)))))))))"

section \<open>Processing a loan offer\<close>

text \<open>
  \<^verbatim>\<open>
  const processLoanOffer = (requestData) => {
    try {
      if (!validateToken(requestData.token)) {
        return responseHelper.authError("Invalid or expired token");
      }
      const validationResult = validateLoanRequest(requestData.data);
      if (!validationResult.isValid) {
        return responseHelper.errorResponse(validationResult.errorCode, validationResult.message);
      }
      return responseHelper.successResponse({
        errorMessage: "", errorCode: "",
        redirectionURL: requestData.data.backRedirectionURL || ""
      });
    } catch (error) {
      console.error("Error processing loan offer:", error);
      return responseHelper.serverError(error);
    }
  };
  \<close>
  The model returns, beside the response, the calls of the service's own functions and
  the writes to the console in the order they happen.
\<close>

datatype fn = FnValidateToken | FnValidateLoanRequest | FnCalculateEMI
  | FnGenerateAmortizationSchedule

datatype event = Call fn | ConsoleError

definition or_empty :: "jsval \<Rightarrow> jsval" where
  "or_empty v = (if truthy v then v else Str [])"

definition processLoanOffer_body :: "runtime \<Rightarrow> jsval \<Rightarrow> (exn + response) \<times> event list" where
  "processLoanOffer_body rt requestData =
     (case get_prop rt requestData ''token'' of
        Inl e \<Rightarrow> (Inl e, [])
      | Inr token \<Rightarrow>
     (case validateToken rt token of
        Inl e \<Rightarrow> (Inl e, [Call FnValidateToken])
      | Inr tokenOk \<Rightarrow>
     if \<not> truthy tokenOk
     then (Inr (authError ''Invalid or expired token''), [Call FnValidateToken])
     else
     (case bind_exn (get_prop rt requestData ''data'') (validateLoanRequest rt) of
        Inl e \<Rightarrow> (Inl e, [Call FnValidateToken, Call FnValidateLoanRequest])
      | Inr validationResult \<Rightarrow>
     if \<not> isValid validationResult
     then (Inr (errorResponse (errorCode validationResult) (message validationResult)),
           [Call FnValidateToken, Call FnValidateLoanRequest])
     else
       (bind_exn (get_prop rt requestData ''data'') (\<lambda>d.
        bind_exn (get_prop rt d ''backRedirectionURL'') (\<lambda>url.
        Inr (successResponse
               \<lparr>errorMessage = [], payload_errorCode = Some [],
                redirectionURL = or_empty url\<rparr>))),
        [Call FnValidateToken, Call FnValidateLoanRequest]))))"

definition processLoanOffer :: "runtime \<Rightarrow> jsval \<Rightarrow> response \<times> event list" where
  "processLoanOffer rt requestData =
     (case processLoanOffer_body rt requestData of
        (Inr r, calls) \<Rightarrow> (r, calls)
      | (Inl e, calls) \<Rightarrow> (serverError rt e, calls @ [ConsoleError]))"

section \<open>Reference definitions\<close>



text \<open>
  The same loop as a relation on its local state: \<open>schedule_run\<close> relates a state
  (counter, running balance, entries so far) to the array the loop returns from it. A
  turn is taken only while the array can grow.
\<close>

inductive schedule_run ::
  "runtime \<Rightarrow> jsnum \<Rightarrow> jsnum \<Rightarrow> jsnum \<Rightarrow> jsnum \<times> jsnum \<times> entry list \<Rightarrow> entry list \<Rightarrow> bool"
  for rt tenure rate e where
    leave: "\<not> js_le mth tenure \<Longrightarrow>
            schedule_run rt tenure rate e (mth, bal, schedule) schedule"
  | turn: "js_le mth tenure \<Longrightarrow> length schedule < capacity rt \<Longrightarrow>
           schedule_run rt tenure rate e
             (js_add mth (Fin 1), next_balance rate e bal,
              schedule @ [schedule_entry rate e mth bal]) out \<Longrightarrow>
           schedule_run rt tenure rate e (mth, bal, schedule) out"

definition generates :: "runtime \<Rightarrow> jsnum \<Rightarrow> jsnum \<Rightarrow> jsnum \<Rightarrow> entry list \<Rightarrow> bool" where
  "generates rt princ roi tenure out =
     schedule_run rt tenure (monthlyRate_of roi) (calculateEMI rt princ roi tenure)
       (Fin 1, princ, []) out"

text \<open>
  The validator as the specification words it: seven rules in a fixed order, each either
  passing, failing with its result, or throwing; the answer is that of the first rule that
  does not pass. To be compared with \<open>validateLoanRequest\<close>.
\<close>

datatype outcome = Pass | Fail ValidationResult | Throw exn

fun first_failure :: "outcome list \<Rightarrow> exn + ValidationResult" where
  "first_failure [] = Inr \<lparr>isValid = True, errorCode = None, message = []\<rparr>"
| "first_failure (Pass # rules) = first_failure rules"
| "first_failure (Fail r # rules) = Inr r"
| "first_failure (Throw e # rules) = Inl e"

definition rule_of :: "exn + bool \<Rightarrow> ValidationResult \<Rightarrow> outcome" where
  "rule_of failing r =
     (case failing of Inl e \<Rightarrow> Throw e | Inr b \<Rightarrow> if b then Fail r else Pass)"

definition missing :: "runtime \<Rightarrow> jsval \<Rightarrow> string \<Rightarrow> bool" where
  "missing rt d p = (get_prop rt d p = Inr Undefined \<or> get_prop rt d p = Inr Null)"

definition required_rule :: "runtime \<Rightarrow> jsval \<Rightarrow> outcome" where
  "required_rule rt d =
     (case get_prop rt d ''orderId'' of
        Inl e \<Rightarrow> Throw e
      | Inr v \<Rightarrow>
          (case find (missing rt d) requiredFields of
             None \<Rightarrow> Pass
           | Some p \<Rightarrow>
               Fail (invalid_result (missingParameters (errorCodes config))
                       (''Missing required parameter: '' @ p))))"

definition format_rule ::
  "runtime \<Rightarrow> jsval \<Rightarrow> string \<Rightarrow> (string \<Rightarrow> bool) \<Rightarrow> string \<Rightarrow> outcome" where
  "format_rule rt d p re msg =
     rule_of (bind_exn (get_prop rt d p) (\<lambda>v.
              bind_exn (regex_test rt re v) (\<lambda>ok. Inr (\<not> ok))))
       (invalid_result (missingParameters (errorCodes config)) msg)"

definition range_rule ::
  "runtime \<Rightarrow> jsval \<Rightarrow> string \<Rightarrow> jsnum \<Rightarrow> jsnum \<Rightarrow> string \<Rightarrow> string \<Rightarrow> outcome" where
  "range_rule rt d p lo hi code msg =
     rule_of (bind_exn (get_prop rt d p) (\<lambda>v. Inr (out_of_range v lo hi)))
       (invalid_result code msg)"

definition downpayment_rule :: "runtime \<Rightarrow> jsval \<Rightarrow> outcome" where
  "downpayment_rule rt d =
     rule_of (bind_exn (get_prop rt d ''downpayment'') (\<lambda>v. Inr (not_nonneg_number v)))
       (invalid_result (missingParameters (errorCodes config))
          ''Downpayment must be a non-negative number'')"

definition rules_in_order :: "runtime \<Rightarrow> jsval \<Rightarrow> outcome list" where
  "rules_in_order rt d =
     [required_rule rt d,
      format_rule rt d ''orderId'' (orderIdRegex (validation config))
        ''Order ID format is invalid'',
      format_rule rt d ''transactionId'' (transactionIdRegex (validation config))
        ''Transaction ID format is invalid'',
      range_rule rt d ''loanAmount'' (minAmount (loan config)) (maxAmount (loan config))
        (invalidLoanAmount (errorCodes config))
        ''Loan amount must be between 10000 and 10000000'',
      range_rule rt d ''tenure'' (minTenure (loan config)) (maxTenure (loan config))
        (invalidTenure (errorCodes config))
        ''Tenure must be between 3 and 84 months'',
      range_rule rt d ''roi'' (minRoi (loan config)) (maxRoi (loan config))
        (missingParameters (errorCodes config))
        ''ROI must be between 5.5% and 24%'',
      downpayment_rule rt d]"

text \<open>
  A value whose conversion to a string cannot throw: no object with an own property
  \<open>toString\<close> in it.
\<close>

fun stringable :: "jsval \<Rightarrow> bool" where
  "stringable (Arr xs) = list_all stringable xs"
| "stringable (Obj kvs) = (map_of kvs ''toString'' = None)"
| "stringable v = True"

text \<open>
  The range rules as the specification words them, on the value of a field: a value is
  outside a range when it is not a number, or is a number below the lower or above the
  upper bound; it is not a non-negative number when it is not a number or is below zero.
  \<open>NaN\<close> is a number and is neither below nor above anything.
\<close>

fun outside :: "real \<Rightarrow> real \<Rightarrow> jsval \<Rightarrow> bool" where
  "outside lo hi (Num (Fin x)) = (x < lo \<or> hi < x)"
| "outside lo hi (Num NaN) = False"
| "outside lo hi (Num PosInf) = True"
| "outside lo hi (Num NegInf) = True"
| "outside lo hi v = True"

fun not_nonnegative :: "jsval \<Rightarrow> bool" where
  "not_nonnegative (Num (Fin x)) = (x < 0)"
| "not_nonnegative (Num NaN) = False"
| "not_nonnegative (Num PosInf) = False"
| "not_nonnegative (Num NegInf) = True"
| "not_nonnegative v = True"

text \<open>
  Concrete inputs. The runtime of the concrete evaluations: their identifiers and tokens
  are strings, booleans and arrays of strings, so the printing and parsing of numbers are
  never reached, and both are fixed to one answer here. Its \<open>Math.pow\<close> is correctly
  rounded, and its heap holds a million entries.
\<close>

definition sample_runtime :: runtime where
  "sample_runtime =
     \<lparr>numberToString = (\<lambda>n. ''NaN''),
      stringToNumber = (\<lambda>s. NaN),
      cannotReadMessage = (\<lambda>v p. ''Cannot read properties of undefined''),
      cannotConvertMessage = ''Cannot convert object to primitive value'',
      nodeEnv = None,
      powApprox = (\<lambda>x e. fl (if e \<in> \<int>
                              then if 0 < e then x ^ nat \<lfloor>e\<rfloor> else 1 / x ^ nat \<lfloor>- e\<rfloor>
                              else x powr e)),
      heapEntries = 1000000\<rparr>"

definition loan_request ::
  "jsval \<Rightarrow> jsval \<Rightarrow> jsval \<Rightarrow> jsval \<Rightarrow> jsval \<Rightarrow> jsval \<Rightarrow> jsval" where
  "loan_request orderId transactionId loanAmount roi tenure downpayment =
     Obj [(''orderId'', orderId), (''transactionId'', transactionId),
          (''loanAmount'', loanAmount), (''roi'', roi), (''tenure'', tenure),
          (''downpayment'', downpayment), (''processingFee'', Num (Fin 500)),
          (''tvsTransactionId'', Str ''TVS0001'')]"

definition sample_token :: string where
  "sample_token = ''0123456789abcdef0123456789abcdef''"

definition present :: "(string \<times> jsval) list \<Rightarrow> string \<Rightarrow> bool" where
  "present kvs p = (own_prop kvs p \<noteq> Undefined \<and> own_prop kvs p \<noteq> Null)"




text \<open>A number that is positive and not below the least normal double, or \<open>+Infinity\<close>.\<close>

definition positive :: "jsnum \<Rightarrow> bool" where
  "positive n = (n = PosInf \<or> (\<exists>y. n = Fin y \<and> 2 powr (- 1022) \<le> y))"

section \<open>Rounding to a double\<close>

lemma round_half_even_near: "\<bar>of_int (round_half_even r) - r\<bar> \<le> 1 / 2"
  unfolding round_half_even_def Let_def by (auto; linarith)

lemma round_half_even_int: "round_half_even (of_int j) = j"
  by (simp add: round_half_even_def)

lemma round_half_even_ge: "of_int j \<le> r \<Longrightarrow> j \<le> round_half_even r"
proof -
  assume "of_int j \<le> r"
  then have "j \<le> \<lfloor>r\<rfloor>" by (simp add: le_floor_iff)
  then show ?thesis unfolding round_half_even_def Let_def by auto
qed

lemma floor_log2:
  assumes "x \<noteq> 0"
  shows "2 powr of_int \<lfloor>log 2 \<bar>x\<bar>\<rfloor> \<le> \<bar>x\<bar>" and "\<bar>x\<bar> < 2 powr (of_int \<lfloor>log 2 \<bar>x\<bar>\<rfloor> + 1)"
  using floor_log_eq_powr_iff[of "\<bar>x\<bar>" 2 "\<lfloor>log 2 \<bar>x\<bar>\<rfloor>"] assms by auto

lemma floor_log2_eq:
  assumes "2 powr of_int e \<le> \<bar>x\<bar>" and "\<bar>x\<bar> < 2 powr (of_int e + 1)"
  shows "\<lfloor>log 2 \<bar>x\<bar>\<rfloor> = e"
proof -
  have "(0::real) < 2 powr of_int e" by simp
  then have "0 < \<bar>x\<bar>" using assms(1) by linarith
  then show ?thesis using floor_log_eq_powr_iff[of "\<bar>x\<bar>" 2 e] assms by auto
qed

lemma fl_zero: "fl 0 = Fin 0"
  by (simp add: fl_def)

lemma fl_form:
  assumes "2 powr of_int e \<le> \<bar>x\<bar>" and "\<bar>x\<bar> < 2 powr (of_int e + 1)" and "- 1022 \<le> e"
    and "q = 2 powr of_int (e - 52)" and "y = of_int (round_half_even (x / q)) * q"
  shows "fl x = (if 2 ^ 1024 \<le> y then PosInf else if y \<le> - (2 ^ 1024) then NegInf else Fin y)"
proof -
  have "(0::real) < 2 powr of_int e" by simp
  then have x0: "x \<noteq> 0" using assms(1) by auto
  have "ulp_exp x = e - 52"
    using floor_log2_eq[OF assms(1,2)] assms(3) by (simp add: ulp_exp_def)
  then show ?thesis using x0 assms(4,5) by (simp add: fl_def Let_def)
qed

lemma powr_int_diff52: "2 powr of_int (e - 52) = (2 powr of_int e / 2 ^ 52 :: real)"
proof -
  have "2 powr of_int (e - 52) = (2 powr (of_int e - 52) :: real)" by simp
  also have "\<dots> = 2 powr of_int e / 2 powr 52" by (rule powr_diff)
  also have "(2 powr 52 :: real) = 2 ^ 52" by (simp add: powr_numeral)
  finally show ?thesis .
qed

lemma fl_rel_error:
  assumes lo: "2 powr (- 1022) \<le> \<bar>x\<bar>" and hi: "\<bar>x\<bar> \<le> 2 ^ 1023"
  shows "\<exists>y. fl x = Fin y \<and> \<bar>y - x\<bar> \<le> \<bar>x\<bar> / 2 ^ 53"
proof -
  have "(0::real) < 2 powr (- 1022)" by simp
  then have x0: "x \<noteq> 0" using lo by auto
  define e where "e = \<lfloor>log 2 \<bar>x\<bar>\<rfloor>"
  have e1: "2 powr of_int e \<le> \<bar>x\<bar>" and e2: "\<bar>x\<bar> < 2 powr (of_int e + 1)"
    using floor_log2[OF x0] by (simp_all add: e_def)
  have "(2::real) powr (- 1022) < 2 powr (of_int e + 1)" using lo e2 by linarith
  then have "(- 1022 :: real) < of_int e + 1" by simp
  then have eb: "- 1022 \<le> e" by linarith
  define q where "q = (2::real) powr of_int (e - 52)"
  define y where "y = of_int (round_half_even (x / q)) * q"
  have q0: "0 < q" by (simp add: q_def)
  have "y - x = (of_int (round_half_even (x / q)) - x / q) * q"
    using q0 by (simp add: y_def left_diff_distrib)
  then have "\<bar>y - x\<bar> = \<bar>of_int (round_half_even (x / q)) - x / q\<bar> * q"
    using q0 by (simp add: abs_mult)
  also have "\<dots> \<le> (1 / 2) * q"
    using round_half_even_near[of "x / q"] q0 by (intro mult_right_mono) auto
  also have "\<dots> = 2 powr of_int e / 2 ^ 53"
    unfolding q_def powr_int_diff52 by simp
  also have "\<dots> \<le> \<bar>x\<bar> / 2 ^ 53" using e1 by (simp add: divide_right_mono)
  finally have err: "\<bar>y - x\<bar> \<le> \<bar>x\<bar> / 2 ^ 53" .
  have "\<bar>y\<bar> \<le> \<bar>x\<bar> + \<bar>x\<bar> / 2 ^ 53" using err by linarith
  also have "\<dots> \<le> 2 ^ 1023 + 2 ^ 1023 / 2 ^ 53" using hi by (intro add_mono divide_right_mono) auto
  also have "\<dots> < (2 ^ 1024 :: real)" by simp
  finally have yb: "\<bar>y\<bar> < 2 ^ 1024" .
  have "fl x = Fin y"
    using fl_form[OF e1 e2 eb q_def y_def] yb by (auto simp add: abs_less_iff)
  with err show ?thesis by blast
qed


lemma powr2_le_D: "(2::real) powr a \<le> 2 ^ n \<Longrightarrow> a \<le> real n"
proof (rule ccontr)
  assume le: "(2::real) powr a \<le> 2 ^ n" and "\<not> a \<le> real n"
  then have "real n < a" by simp
  then have "(2::real) powr real n < 2 powr a" by (intro powr_less_mono) auto
  then show False using le by (simp add: powr_realpow)
qed

lemma powr2_gt_D: "2 ^ n < (2::real) powr a \<Longrightarrow> real n < a"
proof (rule ccontr)
  assume lt: "2 ^ n < (2::real) powr a" and "\<not> real n < a"
  then have "a \<le> real n" by simp
  then have "(2::real) powr a \<le> 2 powr real n" by (intro powr_mono) auto
  then show False using lt by (simp add: powr_realpow)
qed

lemma abs_int_real_le: "\<bar>k\<bar> \<le> 2 ^ n \<Longrightarrow> \<bar>of_int k :: real\<bar> \<le> 2 ^ n"
proof -
  assume "\<bar>k\<bar> \<le> 2 ^ n"
  then have "(of_int \<bar>k\<bar> :: real) \<le> of_int (2 ^ n)" by (simp only: of_int_le_iff)
  then show ?thesis by simp
qed

lemma fl_int:
  assumes "\<bar>k\<bar> \<le> 2 ^ 53"
  shows "fl (of_int k) = Fin (of_int k)"
proof (cases "k = 0")
  case True
  then show ?thesis by (simp add: fl_zero)
next
  case False
  let ?x = "of_int k :: real"
  have x0: "?x \<noteq> 0" using False by simp
  define e where "e = \<lfloor>log 2 \<bar>?x\<bar>\<rfloor>"
  have e1: "2 powr of_int e \<le> \<bar>?x\<bar>" and e2: "\<bar>?x\<bar> < 2 powr (of_int e + 1)"
    using floor_log2[OF x0] by (simp_all add: e_def)
  have "1 \<le> \<bar>k\<bar>" using False by linarith
  then have "(of_int 1 :: real) \<le> of_int \<bar>k\<bar>" by (simp only: of_int_le_iff)
  then have "1 \<le> \<bar>?x\<bar>" by simp
  then have "2 ^ 0 < (2::real) powr (of_int e + 1)" using e2 by simp
  then have "real 0 < of_int e + 1" by (rule powr2_gt_D)
  then have e0: "0 \<le> e" by linarith
  have x53: "\<bar>?x\<bar> \<le> 2 ^ 53" using assms by (rule abs_int_real_le)
  then have "(2::real) powr of_int e \<le> 2 ^ 53" using e1 by linarith
  then have "of_int e \<le> real 53" by (rule powr2_le_D)
  then have e53: "e \<le> 53" by linarith
  define q where "q = (2::real) powr of_int (e - 52)"
  define y where "y = of_int (round_half_even (?x / q)) * q"
  have q0: "0 < q" by (simp add: q_def)
  have "\<exists>j. ?x / q = of_int j"
  proof (cases "e \<le> 52")
    case True
    then obtain n where n: "52 - e = int n" using nonneg_int_cases[of "52 - e"] by auto
    have rn: "real n = of_int (52 - e)" by (simp add: n)
    have "q * 2 ^ n = 2 powr (of_int (e - 52) + real n)"
      unfolding q_def by (simp only: powr_add powr_realpow[of 2 n, simplified])
    also have "of_int (e - 52) + real n = (0::real)" unfolding rn by simp
    finally have "q * 2 ^ n = 1" by simp
    then have "?x / q = ?x * 2 ^ n" using q0 by (simp add: field_simps)
    then have "?x / q = of_int (k * 2 ^ n)" by simp
    then show ?thesis by blast
  next
    case False
    then have e: "e = 53" using e53 by linarith
    have "2 ^ 53 \<le> \<bar>?x\<bar>" using e1 by (simp add: e powr_numeral)
    then have "\<bar>?x\<bar> = 2 ^ 53" using x53 by linarith
    then have k: "?x = 2 ^ 53 \<or> ?x = - (2 ^ 53)" by linarith
    have "q = 2" by (simp add: q_def e)
    then have "?x / q = of_int (2 ^ 52) \<or> ?x / q = of_int (- (2 ^ 52))" using k by auto
    then show ?thesis by blast
  qed
  then obtain j where j: "?x / q = of_int j" by blast
  have "of_int j * q = ?x" using j q0 by (simp add: field_simps)
  then have "y = ?x" by (simp add: y_def j round_half_even_int)
  moreover have "\<bar>?x\<bar> < 2 ^ 1024"
  proof -
    have "\<bar>?x\<bar> \<le> 2 ^ 53" by fact
    also have "\<dots> < (2 ^ 1024 :: real)" by simp
    finally show ?thesis .
  qed
  ultimately show ?thesis
    using fl_form[OF e1 e2 _ q_def y_def] e0 by (auto simp add: abs_less_iff)
qed

lemma fl_nat: "n \<le> 2 ^ 53 \<Longrightarrow> fl (real n) = Fin (real n)"
proof -
  assume "n \<le> 2 ^ 53"
  then have "int n \<le> 2 ^ 53" by (metis of_nat_le_iff of_nat_numeral of_nat_power)
  then have "\<bar>int n\<bar> \<le> 2 ^ 53" by simp
  from fl_int[OF this] show ?thesis by simp
qed


lemma fl_overflow:
  assumes "2 ^ 1024 \<le> x"
  shows "fl x = PosInf"
proof -
  have "(0::real) < 2 ^ 1024" by simp
  then have xp: "0 < x" using assms by linarith
  then have x0: "x \<noteq> 0" by simp
  define e where "e = \<lfloor>log 2 \<bar>x\<bar>\<rfloor>"
  have e1: "2 powr of_int e \<le> \<bar>x\<bar>" and e2: "\<bar>x\<bar> < 2 powr (of_int e + 1)"
    using floor_log2[OF x0] by (simp_all add: e_def)
  have "2 ^ 1024 < (2::real) powr (of_int e + 1)" using assms e2 xp by linarith
  then have "real 1024 < of_int e + 1" by (rule powr2_gt_D)
  then have eb: "1024 \<le> e" by linarith
  define q where "q = (2::real) powr of_int (e - 52)"
  define y where "y = of_int (round_half_even (x / q)) * q"
  have q0: "0 < q" by (simp add: q_def)
  have q52: "q * 2 ^ 52 = 2 powr of_int e"
    unfolding q_def powr_int_diff52 by simp
  have "2 ^ 52 * q \<le> x" using e1 xp q52 by (simp add: mult.commute)
  then have "2 ^ 52 \<le> x / q" using q0 by (simp add: pos_le_divide_eq)
  then have "of_int (2 ^ 52) \<le> x / q" by simp
  then have "2 ^ 52 \<le> round_half_even (x / q)" by (rule round_half_even_ge)
  then have "(of_int (2 ^ 52) :: real) \<le> of_int (round_half_even (x / q))"
    by (simp only: of_int_le_iff)
  then have "2 ^ 52 * q \<le> y" using q0 by (simp add: y_def)
  moreover have "(2::real) powr real 1024 \<le> 2 powr of_int e" using eb by (intro powr_mono) auto
  ultimately have "2 ^ 1024 \<le> y" using q52 by (simp add: powr_realpow mult.commute)
  then show ?thesis using fl_form[OF e1 e2 _ q_def y_def] eb by simp
qed


lemma abs_lt_D:
  fixes z c :: real
  assumes "\<bar>z\<bar> < c"
  shows "\<not> c \<le> z" and "\<not> z \<le> - c"
  using assms by linarith+

lemma fl_eval_big:
  assumes "2 ^ n \<le> \<bar>x\<bar>" and "\<bar>x\<bar> < 2 * 2 ^ n" and "n \<le> 1023"
    and "round_half_even (x * 2 ^ 52 / 2 ^ n) = k"
    and "\<bar>of_int k * 2 ^ n / 2 ^ 52\<bar> < (2 ^ 1024 :: real)"
  shows "fl x = Fin (of_int k * 2 ^ n / 2 ^ 52)"
proof -
  have p: "2 powr of_int (int n) = (2 ^ n :: real)" by (simp add: powr_realpow)
  have p1: "2 powr (of_int (int n) + 1) = (2 * 2 ^ n :: real)"
    by (simp add: powr_add powr_realpow)
  have q: "2 ^ n / 2 ^ 52 = (2::real) powr of_int (int n - 52)"
    unfolding powr_int_diff52 p by simp
  have y: "of_int k * 2 ^ n / 2 ^ 52
             = of_int (round_half_even (x / (2 ^ n / 2 ^ 52))) * (2 ^ n / 2 ^ 52 :: real)"
    using assms(4) by simp
  have "fl x = (if (2 ^ 1024 :: real) \<le> of_int k * 2 ^ n / 2 ^ 52 then PosInf
                else if of_int k * 2 ^ n / 2 ^ 52 \<le> - (2 ^ 1024 :: real) then NegInf
                else Fin (of_int k * 2 ^ n / 2 ^ 52))"
  proof (rule fl_form[where e = "int n"])
    show "2 powr of_int (int n) \<le> \<bar>x\<bar>" unfolding p by fact
    show "\<bar>x\<bar> < 2 powr (of_int (int n) + 1)" unfolding p1 by fact
    show "- 1022 \<le> int n" by simp
    show "2 ^ n / 2 ^ 52 = (2::real) powr of_int (int n - 52)" by (rule q)
    show "of_int k * 2 ^ n / 2 ^ 52
            = of_int (round_half_even (x / (2 ^ n / 2 ^ 52))) * (2 ^ n / 2 ^ 52 :: real)"
      by (rule y)
  qed
  moreover have "\<not> (2 ^ 1024 :: real) \<le> of_int k * 2 ^ n / 2 ^ 52"
    and "\<not> of_int k * 2 ^ n / 2 ^ 52 \<le> - (2 ^ 1024 :: real)"
    using abs_lt_D[OF assms(5)] by blast+
  ultimately show ?thesis by (simp only: if_False)
qed

lemma fl_eval_small:
  assumes "1 \<le> \<bar>x\<bar> * 2 ^ n" and "\<bar>x\<bar> * 2 ^ n < 2" and "n \<le> 1022"
    and "round_half_even (x * 2 ^ (52 + n)) = k"
  shows "fl x = Fin (of_int k / 2 ^ (52 + n))"
proof -
  have p: "2 powr of_int (- int n) = (1 / 2 ^ n :: real)"
    by (simp add: powr_minus_divide powr_realpow)
  have p1: "2 powr (of_int (- int n) + 1) = (2 / 2 ^ n :: real)"
    unfolding powr_add p by simp
  have q: "1 / 2 ^ (52 + n) = (2::real) powr of_int (- int n - 52)"
    unfolding powr_int_diff52 p by (simp add: power_add)
  have kb: "\<bar>of_int k / 2 ^ (52 + n)\<bar> < (2 ^ 1024 :: real)"
  proof -
    have "\<bar>of_int k - x * 2 ^ (52 + n)\<bar> \<le> 1 / 2"
      using round_half_even_near[of "x * 2 ^ (52 + n)"] assms(4) by simp
    then have "\<bar>of_int k\<bar> \<le> \<bar>x * 2 ^ (52 + n)\<bar> + 1 / 2" by linarith
    also have "\<bar>x * 2 ^ (52 + n)\<bar> = (\<bar>x\<bar> * 2 ^ n) * 2 ^ 52"
      by (simp add: abs_mult power_add)
    also have "\<dots> + 1 / 2 < 2 * 2 ^ 52 + 1 / 2" using assms(2) by simp
    finally have k54: "\<bar>of_int k :: real\<bar> < 2 ^ 54" by simp
    have "(1::real) \<le> 2 ^ (52 + n)" by simp
    then have "\<bar>of_int k :: real\<bar> / 2 ^ (52 + n) \<le> \<bar>of_int k\<bar> / 1"
      by (intro divide_left_mono) auto
    then have "\<bar>of_int k :: real\<bar> / 2 ^ (52 + n) < 2 ^ 54" using k54 by simp
    also have "\<dots> < (2 ^ 1024 :: real)" by simp
    finally show ?thesis by simp
  qed
  have "fl x = (if (2 ^ 1024 :: real) \<le> of_int k / 2 ^ (52 + n) then PosInf
                else if of_int k / 2 ^ (52 + n) \<le> - (2 ^ 1024 :: real) then NegInf
                else Fin (of_int k / 2 ^ (52 + n)))"
  proof (rule fl_form[where e = "- int n"])
    show "2 powr of_int (- int n) \<le> \<bar>x\<bar>"
      unfolding p using assms(1) by (simp add: field_simps)
    show "\<bar>x\<bar> < 2 powr (of_int (- int n) + 1)"
      unfolding p1 using assms(2) by (simp add: field_simps)
    show "- 1022 \<le> - int n" using assms(3) by simp
    show "1 / 2 ^ (52 + n) = (2::real) powr of_int (- int n - 52)" by (rule q)
    show "of_int k / 2 ^ (52 + n)
            = of_int (round_half_even (x / (1 / 2 ^ (52 + n)))) * (1 / 2 ^ (52 + n) :: real)"
      using assms(4) by simp
  qed
  moreover have "\<not> (2 ^ 1024 :: real) \<le> of_int k / 2 ^ (52 + n)"
    and "\<not> of_int k / 2 ^ (52 + n) \<le> - (2 ^ 1024 :: real)"
    using abs_lt_D[OF kb] by blast+
  ultimately show ?thesis by (simp only: if_False)
qed


lemma round_half_even_eqI:
  assumes "of_int k - 1 / 2 < r" and "r < of_int k + 1 / 2"
  shows "round_half_even r = k"
proof -
  have "\<lfloor>r\<rfloor> = k \<or> \<lfloor>r\<rfloor> = k - 1" using assms by linarith
  then show ?thesis
  proof
    assume f: "\<lfloor>r\<rfloor> = k"
    then have "r - of_int \<lfloor>r\<rfloor> < 1 / 2" using assms by simp
    then show ?thesis using f by (simp add: round_half_even_def)
  next
    assume f: "\<lfloor>r\<rfloor> = k - 1"
    then have "1 / 2 < r - of_int \<lfloor>r\<rfloor>" using assms by simp
    then show ?thesis using f by (simp add: round_half_even_def)
  qed
qed

lemma fl_near_big:
  assumes "2 ^ n \<le> \<bar>x\<bar>" and "\<bar>x\<bar> < 2 * 2 ^ n" and "n \<le> 1023"
    and "of_int k - 1 / 2 < x * 2 ^ 52 / 2 ^ n" and "x * 2 ^ 52 / 2 ^ n < of_int k + 1 / 2"
    and "\<bar>of_int k * 2 ^ n / 2 ^ 52\<bar> < (2 ^ 1024 :: real)"
  shows "fl x = Fin (of_int k * 2 ^ n / 2 ^ 52)"
  using assms(1-3) round_half_even_eqI[OF assms(4,5)] assms(6) by (rule fl_eval_big)

lemma fl_near_small:
  assumes "1 \<le> \<bar>x\<bar> * 2 ^ n" and "\<bar>x\<bar> * 2 ^ n < 2" and "n \<le> 1022"
    and "of_int k - 1 / 2 < x * 2 ^ (52 + n)" and "x * 2 ^ (52 + n) < of_int k + 1 / 2"
  shows "fl x = Fin (of_int k / 2 ^ (52 + n))"
  using assms(1-3) round_half_even_eqI[OF assms(4,5)] by (rule fl_eval_small)

section \<open>The loop of the schedule\<close>

lemma counter_next: "m < 2 ^ 53 \<Longrightarrow> fl (real m + 1) = Fin (real (Suc m))"
  using fl_nat[of "Suc m"] by (simp add: add.commute)

lemma schedule_loop_Fin:
  assumes "c = capacity rt - length schedule" and "m + c \<le> 2 ^ 53"
  shows "schedule_loop rt (Fin t) rate e (Fin (real m)) bal schedule
     = (if nat (\<lfloor>t\<rfloor> + 1 - int m) \<le> c
        then Some (schedule @ schedule_steps (nat (\<lfloor>t\<rfloor> + 1 - int m)) rate e (Fin (real m)) bal)
        else None)"
  using assms
proof (induction c arbitrary: m bal schedule)
  case 0
  then have full: "\<not> length schedule < capacity rt" by simp
  show ?case
  proof (cases "real m \<le> t")
    case True
    then have "0 < nat (\<lfloor>t\<rfloor> + 1 - int m)" by linarith
    then show ?thesis using True full
      by (subst schedule_loop.simps) (simp add: js_le_def)
  next
    case False
    then have "nat (\<lfloor>t\<rfloor> + 1 - int m) = 0" by linarith
    then show ?thesis using False
      by (subst schedule_loop.simps) (simp add: js_le_def)
  qed
next
  case (Suc c)
  then have room: "length schedule < capacity rt" and m53: "m < 2 ^ 53" by linarith+
  show ?case
  proof (cases "real m \<le> t")
    case True
    let ?schedule' = "schedule @ [schedule_entry rate e (Fin (real m)) bal]"
    have c: "c = capacity rt - length ?schedule'" using Suc(2) by simp
    have m: "Suc m + c \<le> 2 ^ 53" using Suc(3) by simp
    have f: "int m \<le> \<lfloor>t\<rfloor>" using True by (simp add: le_floor_iff)
    define k where "k = nat (\<lfloor>t\<rfloor> + 1 - int (Suc m))"
    have k: "nat (\<lfloor>t\<rfloor> + 1 - int m) = Suc k" "nat (\<lfloor>t\<rfloor> + 1 - int (Suc m)) = k"
      using f unfolding k_def by linarith+
    have "schedule_loop rt (Fin t) rate e (Fin (real m)) bal schedule
        = schedule_loop rt (Fin t) rate e (Fin (real (Suc m))) (next_balance rate e bal) ?schedule'"
      using True room by (subst schedule_loop.simps) (simp add: js_le_def counter_next[OF m53])
    also have "\<dots> = (if k \<le> c
        then Some (?schedule' @ schedule_steps k rate e (Fin (real (Suc m))) (next_balance rate e bal))
        else None)"
      using Suc(1)[OF c m] k(2) by simp
    finally show ?thesis using k(1) by (simp add: counter_next[OF m53])
  next
    case False
    then have "nat (\<lfloor>t\<rfloor> + 1 - int m) = 0" by linarith
    then show ?thesis using False
      by (subst schedule_loop.simps) (simp add: js_le_def)
  qed
qed

lemma schedule_loop_PosInf:
  assumes "c = capacity rt - length schedule" and "m + c \<le> 2 ^ 53"
  shows "schedule_loop rt PosInf rate e (Fin (real m)) bal schedule = None"
  using assms
proof (induction c arbitrary: m bal schedule)
  case 0
  then show ?case by (subst schedule_loop.simps) (simp add: js_le_def)
next
  case (Suc c)
  then have room: "length schedule < capacity rt" and m53: "m < 2 ^ 53" by linarith+
  let ?schedule' = "schedule @ [schedule_entry rate e (Fin (real m)) bal]"
  have c: "c = capacity rt - length ?schedule'" using Suc(2) by simp
  have m: "Suc m + c \<le> 2 ^ 53" using Suc(3) by simp
  have "schedule_loop rt PosInf rate e (Fin (real m)) bal schedule
      = schedule_loop rt PosInf rate e (Fin (real (Suc m))) (next_balance rate e bal) ?schedule'"
    using room by (subst schedule_loop.simps) (simp add: js_le_def counter_next[OF m53])
  then show ?case using Suc(1)[OF c m] by simp
qed

lemma schedule_loop_NaN: "schedule_loop rt NaN rate e mth bal schedule = Some schedule"
  by (subst schedule_loop.simps) (simp add: js_le_def)

lemma schedule_loop_NegInf:
  "schedule_loop rt NegInf rate e (Fin m) bal schedule = Some schedule"
  by (subst schedule_loop.simps) (simp add: js_le_def)

lemma capacity_le: "1 + capacity rt \<le> 2 ^ 53"
proof -
  have "capacity rt \<le> 2 ^ 32 - 1" by (simp add: capacity_def)
  also have "\<dots> \<le> (2 ^ 53 - 1 :: nat)" by simp
  finally show ?thesis by simp
qed

lemma generate_steps:
  "generateAmortizationSchedule rt p r t
     = (if t \<noteq> PosInf \<and> turns t \<le> capacity rt
        then Some (schedule_steps (turns t) (monthlyRate_of r) (calculateEMI rt p r t) (Fin 1) p)
        else None)"
proof (cases t)
  case (Fin x)
  show ?thesis
    using schedule_loop_Fin[where m = 1 and schedule = "[]" and rt = rt and t = x, OF refl]
      capacity_le[of rt]
    by (simp add: generateAmortizationSchedule_def Fin)
next
  case PosInf
  show ?thesis
    using schedule_loop_PosInf[where m = 1 and schedule = "[]" and rt = rt, OF refl]
      capacity_le[of rt]
    by (simp add: generateAmortizationSchedule_def PosInf)
qed (simp_all add: generateAmortizationSchedule_def schedule_loop_NaN schedule_loop_NegInf)


lemma schedule_steps_months:
  "m + n \<le> 2 ^ 53 \<Longrightarrow>
   map month (schedule_steps n rate e (Fin (real m)) bal) = map (\<lambda>k. Fin (real k)) [m ..< m + n]"
proof (induction n arbitrary: m bal)
  case 0
  show ?case by simp
next
  case (Suc n)
  then have m53: "m < 2 ^ 53" and m: "Suc m + n \<le> 2 ^ 53" by simp_all
  show ?case
    using Suc(1)[OF m] by (simp add: counter_next[OF m53] schedule_entry_def Let_def upt_rec)
qed

lemma schedule_steps_emi: "x \<in> set (schedule_steps n rate e mth bal) \<Longrightarrow> emi x = round2 e"
  by (induction n arbitrary: mth bal) (auto simp add: schedule_entry_def Let_def)

lemma run_imp_loop:
  "schedule_run rt tenure rate e st out \<Longrightarrow>
   schedule_loop rt tenure rate e (fst st) (fst (snd st)) (snd (snd st)) = Some out"
proof (induction rule: schedule_run.induct)
  case (leave mth bal schedule)
  then show ?case by (subst schedule_loop.simps) simp
next
  case (turn mth bal schedule out)
  then show ?case by (subst schedule_loop.simps) simp
qed

lemma loop_imp_run:
  "schedule_loop rt tenure rate e mth bal schedule = Some out \<Longrightarrow>
   schedule_run rt tenure rate e (mth, bal, schedule) out"
proof (induction rt tenure rate e mth bal schedule rule: schedule_loop.induct)
  case (1 rt tenure rate e mth bal schedule)
  show ?case
  proof (cases "js_le mth tenure")
    case False
    then have "out = schedule" using 1(2) by (subst (asm) schedule_loop.simps) simp
    then show ?thesis using False by (simp add: schedule_run.leave)
  next
    case True
    show ?thesis
    proof (cases "length schedule < capacity rt")
      case False
      then show ?thesis using True 1(2) by (subst (asm) schedule_loop.simps) simp
    next
      case room: True
      have "schedule_loop rt tenure rate e (js_add mth (Fin 1)) (next_balance rate e bal)
              (schedule @ [schedule_entry rate e mth bal]) = Some out"
        using True room 1(2) by (subst (asm) schedule_loop.simps) simp
      then have "schedule_run rt tenure rate e
                   (js_add mth (Fin 1), next_balance rate e bal,
                    schedule @ [schedule_entry rate e mth bal]) out"
        by (rule 1(1)[OF True room])
      then show ?thesis by (rule schedule_run.turn[OF True room])
    qed
  qed
qed

lemma schedule_run_deterministic:
  "schedule_run rt tenure rate e st out1 \<Longrightarrow> schedule_run rt tenure rate e st out2 \<Longrightarrow>
   out1 = out2"
proof (induction arbitrary: out2 rule: schedule_run.induct)
  case (leave mth bal schedule)
  from leave(2) leave(1) show ?case by (cases rule: schedule_run.cases) auto
next
  case (turn mth bal schedule out)
  from turn(5) turn(1) turn(4) show ?case by (cases rule: schedule_run.cases) auto
qed

lemma Math_pow_cong: "powApprox rt' = powApprox rt \<Longrightarrow> Math_pow rt' b e = Math_pow rt b e"
  by (cases e; cases b) simp_all

lemma calculateEMI_cong:
  "powApprox rt' = powApprox rt \<Longrightarrow> calculateEMI rt' p r t = calculateEMI rt p r t"
  by (simp add: calculateEMI_def Math_pow_cong[of rt' rt] del: Math_pow.simps)

section \<open>Arithmetic of the special values\<close>

lemma fl_one: "fl 1 = Fin 1"
  using fl_nat[of 1] by simp

lemma fl_1200: "fl 1200 = Fin 1200"
  using fl_nat[of 1200] by simp

lemma fl_positive:
  assumes "2 powr (- 1022) \<le> x"
  shows "positive (fl x)"
proof -
  have "(0::real) < 2 powr (- 1022)" by simp
  then have xp: "0 < x" using assms by linarith
  then have x0: "x \<noteq> 0" by simp
  define e where "e = \<lfloor>log 2 \<bar>x\<bar>\<rfloor>"
  have e1: "2 powr of_int e \<le> \<bar>x\<bar>" and e2: "\<bar>x\<bar> < 2 powr (of_int e + 1)"
    using floor_log2[OF x0] by (simp_all add: e_def)
  have "(2::real) powr (- 1022) < 2 powr (of_int e + 1)" using assms e2 xp by linarith
  then have "(- 1022 :: real) < of_int e + 1" by simp
  then have eb: "- 1022 \<le> e" by linarith
  define q where "q = (2::real) powr of_int (e - 52)"
  define y where "y = of_int (round_half_even (x / q)) * q"
  have q0: "0 < q" by (simp add: q_def)
  have q52: "q * 2 ^ 52 = 2 powr of_int e"
    unfolding q_def powr_int_diff52 by simp
  have "2 ^ 52 * q \<le> x" using e1 xp q52 by (simp add: mult.commute)
  then have "2 ^ 52 \<le> x / q" using q0 by (simp add: pos_le_divide_eq)
  then have "of_int (2 ^ 52) \<le> x / q" by simp
  then have "2 ^ 52 \<le> round_half_even (x / q)" by (rule round_half_even_ge)
  then have "(of_int (2 ^ 52) :: real) \<le> of_int (round_half_even (x / q))"
    by (simp only: of_int_le_iff)
  then have "2 ^ 52 * q \<le> y" using q0 by (simp add: y_def)
  moreover have "(2::real) powr (- 1022) \<le> 2 powr of_int e" using eb by (intro powr_mono) auto
  moreover have "2 ^ 52 * q = 2 powr of_int e" using q52 by (simp only: mult.commute)
  ultimately have y: "2 powr (- 1022) \<le> y" by linarith
  have "(0::real) < 2 ^ 1024" by simp
  then have "\<not> y \<le> - (2 ^ 1024)" using y \<open>(0::real) < 2 powr (- 1022)\<close> by linarith
  then show ?thesis using fl_form[OF e1 e2 eb q_def y_def] y by (simp add: positive_def)
qed

lemma positive_mul:
  assumes "1 \<le> P" and "positive n"
  shows "positive (js_mul (Fin P) n)"
proof (cases n)
  case (Fin y)
  then have y: "2 powr (- 1022) \<le> y" using assms(2) by (simp add: positive_def)
  have "(0::real) < 2 powr (- 1022)" by simp
  then have "0 \<le> y" using y by linarith
  then have "1 * y \<le> P * y" using assms(1) by (intro mult_right_mono) auto
  then have "2 powr (- 1022) \<le> P * y" using y by simp
  then have "positive (fl (P * y))" by (rule fl_positive)
  then show ?thesis using Fin by simp
next
  case PosInf
  then show ?thesis using assms(1) by (simp add: positive_def inf_of_sign_def)
qed (use assms(2) in \<open>simp_all add: positive_def\<close>)

lemma positive_mul_one:
  assumes "positive n"
  shows "positive (js_mul n (Fin 1))"
proof (cases n)
  case (Fin y)
  then have "2 powr (- 1022) \<le> y" using assms by (simp add: positive_def)
  then have "positive (fl y)" by (rule fl_positive)
  then show ?thesis using Fin by simp
next
  case PosInf
  then show ?thesis by (simp add: positive_def inf_of_sign_def)
qed (use assms in \<open>simp_all add: positive_def\<close>)

lemma positive_div_zero:
  assumes "positive n"
  shows "js_div n (Fin 0) = PosInf"
proof (cases n)
  case (Fin y)
  have p: "(0::real) < 2 powr (- 1022)" by simp
  have "2 powr (- 1022) \<le> y" using assms Fin by (simp add: positive_def)
  with p have "0 < y" by linarith
  then show ?thesis using Fin by (simp add: inf_of_sign_def)
next
  case PosInf
  then show ?thesis by (simp add: inf_of_sign_def)
qed (use assms in \<open>simp_all add: positive_def\<close>)

lemma round2_NaN: "round2 NaN = NaN"
  by (simp add: round2_def)

lemma round2_PosInf: "round2 PosInf = PosInf"
  by (simp add: round2_def inf_of_sign_def)

lemma round2_NegInf: "round2 NegInf = NegInf"
  by (simp add: round2_def inf_of_sign_def)

lemma monthlyRate_of_Fin: "monthlyRate_of (Fin r) = fl (r / 1200)"
  by (simp add: monthlyRate_of_def fl_1200)

lemma js_mul_NaN_right: "js_mul a NaN = NaN"
  by (cases a) simp_all

lemma js_div_NaN_right: "js_div a NaN = NaN"
  by (cases a) simp_all

lemma one_minus_one: "js_sub (Fin 1) (Fin 1) = Fin 0"
  by (simp add: js_sub_def fl_zero)

lemma calculateEMI_rate0:
  assumes "\<forall>e. powApprox rt 1 e = Fin 1"
  shows "calculateEMI rt p (Fin 0) t = NaN"
proof -
  have r: "monthlyRate_of (Fin 0) = Fin 0" by (simp add: monthlyRate_of_Fin fl_zero)
  have b: "js_add (Fin 1) (Fin 0) = Fin 1" by (simp add: fl_one)
  have pw: "Math_pow rt (Fin 1) t = Fin 1 \<or> Math_pow rt (Fin 1) t = NaN"
    using assms by (cases t) auto
  have num: "js_mul (js_mul p (Fin 0)) (Fin 1) = Fin 0 \<or> js_mul (js_mul p (Fin 0)) (Fin 1) = NaN"
    by (cases p) (simp_all add: fl_zero inf_of_sign_def)
  have "js_div (js_mul (js_mul p (Fin 0)) (Math_pow rt (Fin 1) t))
          (js_sub (Math_pow rt (Fin 1) t) (Fin 1)) = NaN"
    using pw num
    by (auto simp add: one_minus_one js_mul_NaN_right js_div_NaN_right inf_of_sign_def
        simp del: Math_pow.simps)
  then show ?thesis
    unfolding calculateEMI_def Let_def r b by (simp add: round2_NaN del: Math_pow.simps)
qed

lemma calculateEMI_term0:
  assumes "1 \<le> P" and "1 \<le> R"
  shows "calculateEMI rt (Fin P) (Fin R) (Fin 0) = PosInf"
proof -
  have "(2::real) powr (- 1022) \<le> 2 powr (- 11)" by (intro powr_mono) auto
  also have "\<dots> = 1 / 2 ^ 11" by (simp add: powr_minus_divide powr_numeral)
  also have "\<dots> \<le> 1 / 1200" by simp
  also have "\<dots> \<le> R / 1200" using assms(2) by (simp add: divide_right_mono)
  finally have "positive (monthlyRate_of (Fin R))"
    unfolding monthlyRate_of_Fin by (rule fl_positive)
  then have "positive (js_mul (js_mul (Fin P) (monthlyRate_of (Fin R))) (Fin 1))"
    using assms(1) by (intro positive_mul_one positive_mul)
  then have "js_div (js_mul (js_mul (Fin P) (monthlyRate_of (Fin R))) (Fin 1)) (Fin 0) = PosInf"
    by (rule positive_div_zero)
  then show ?thesis
    unfolding calculateEMI_def Let_def by (simp add: one_minus_one round2_PosInf)
qed

lemma generate_no_turn:
  "\<not> js_le (Fin 1) t \<Longrightarrow> generateAmortizationSchedule rt p r t = Some []"
  unfolding generateAmortizationSchedule_def by (subst schedule_loop.simps) simp

lemma sample_pow_one: "powApprox sample_runtime 1 e = Fin 1"
  by (simp add: sample_runtime_def fl_one)

section \<open>Degenerate arguments\<close>

text \<open>
  Claim C1 says that a non-finite argument, a rate that is not positive or a term that is
  not positive makes \<open>calculateEMI\<close> and \<open>generateAmortizationSchedule\<close> fail with
  an InvalidInput error, and that \<open>calculateEMI\<close> never returns \<open>NaN\<close>. Neither
  function checks its arguments: at rate \<open>0\<close> the quotient is \<open>0 / 0\<close>.
\<close>

theorem calculateEMI_NaN_counterexample:
  "calculateEMI sample_runtime (Fin 100000) (Fin 0) (Fin 12) = NaN"
  by (rule calculateEMI_rate0) (simp add: sample_pow_one)

text \<open>
  Claim C1 as amended. \<open>calculateEMI\<close> and \<open>generateAmortizationSchedule\<close> have no
  failure: at rate \<open>0\<close> \<open>calculateEMI\<close> returns \<open>NaN\<close> for every principal and
  term (in an engine whose \<open>Math.pow\<close> of base \<open>1\<close> is \<open>1\<close>); at term \<open>0\<close>, with
  a principal and a rate of at least \<open>1\<close>, it returns \<open>+Infinity\<close>; and for every
  term below \<open>1\<close>, and for a \<open>NaN\<close> or \<open>-Infinity\<close> term,
  \<open>generateAmortizationSchedule\<close> returns the empty schedule.
\<close>

theorem degenerate_arguments:
  "((\<forall>e. powApprox rt 1 e = Fin 1) \<longrightarrow> calculateEMI rt p (Fin 0) t = NaN)
   \<and> (1 \<le> P \<longrightarrow> 1 \<le> R \<longrightarrow> calculateEMI rt (Fin P) (Fin R) (Fin 0) = PosInf)
   \<and> (x < 1 \<longrightarrow> generateAmortizationSchedule rt p roi (Fin x) = Some [])
   \<and> generateAmortizationSchedule rt p roi NaN = Some []
   \<and> generateAmortizationSchedule rt p roi NegInf = Some []"
proof (intro conjI impI)
  show "calculateEMI rt p (Fin 0) t = NaN" if "\<forall>e. powApprox rt 1 e = Fin 1"
    using that by (rule calculateEMI_rate0)
  show "calculateEMI rt (Fin P) (Fin R) (Fin 0) = PosInf" if "1 \<le> P" "1 \<le> R"
    using that by (rule calculateEMI_term0)
  show "generateAmortizationSchedule rt p roi (Fin x) = Some []" if "x < 1"
    using that by (intro generate_no_turn) (simp add: js_le_def)
  show "generateAmortizationSchedule rt p roi NaN = Some []"
    by (intro generate_no_turn) (simp add: js_le_def)
  show "generateAmortizationSchedule rt p roi NegInf = Some []"
    by (intro generate_no_turn) (simp add: js_le_def)
qed

theorem degenerate_arguments_witness:
  "(\<forall>e. powApprox sample_runtime 1 e = Fin 1)
   \<and> calculateEMI sample_runtime (Fin 100000) (Fin 0) (Fin 12) = NaN
   \<and> (1::real) \<le> 100000 \<and> (1::real) \<le> 12
   \<and> calculateEMI sample_runtime (Fin 100000) (Fin 12) (Fin 0) = PosInf
   \<and> (-5::real) < 1
   \<and> generateAmortizationSchedule sample_runtime (Fin 100000) (Fin 12) (Fin (-5)) = Some []"
  using degenerate_arguments[where rt = sample_runtime and p = "Fin 100000" and t = "Fin 12"
      and P = 100000 and R = 12 and x = "-5" and roi = "Fin 12"]
  by (simp add: sample_pow_one)

section \<open>Evaluations in the sample runtime\<close>


lemma sample_emi_50000:
  "calculateEMI sample_runtime (Fin 50000) (Fin 24) (Fin 3) = fl 17337.73"
proof -
  have s1: "js_mul (Fin 12) (Fin 100) = (Fin 1200)"
    proof -
      have "fl (12 * 100) = Fin (of_int 5277655813324800 * 2 ^ 10 / 2 ^ 52)"
        by (rule fl_near_big) (simp_all add: power_divide)
      then show ?thesis by simp
    qed
  have s2: "js_div (Fin 24) (Fin 1200) = (Fin (5764607523034235 / 2 ^ 58))"
    proof -
      have "fl (24 / 1200) = Fin (of_int 5764607523034235 / 2 ^ (52 + 6))"
        by (rule fl_near_small) (simp_all add: power_divide)
      then show ?thesis by simp
    qed
  have s3: "js_add (Fin 1) (Fin (5764607523034235 / 2 ^ 58)) = (Fin (2296835809958953 / 2 ^ 51))"
    proof -
      have "fl (1 + (5764607523034235 / 2 ^ 58)) = Fin (of_int 4593671619917906 * 2 ^ 0 / 2 ^ 52)"
        by (rule fl_near_big) (simp_all add: power_divide)
      then show ?thesis by simp
    qed
  have s4: "Math_pow sample_runtime (Fin (2296835809958953 / 2 ^ 51)) (Fin 3) = (Fin (2389627976681295 / 2 ^ 51))"
    proof -
      have "fl ((2296835809958953 / 2 ^ 51) ^ 3) = Fin (of_int 4779255953362590 * 2 ^ 0 / 2 ^ 52)"
        by (rule fl_near_big) (simp_all add: power_divide)
      then show ?thesis by (simp add: sample_runtime_def)
    qed
  have s5: "js_mul (Fin 50000) (Fin (5764607523034235 / 2 ^ 58)) = (Fin 1000)"
    proof -
      have "fl (50000 * (5764607523034235 / 2 ^ 58)) = Fin (of_int 8796093022208000 * 2 ^ 9 / 2 ^ 52)"
        by (rule fl_near_big) (simp_all add: power_divide)
      then show ?thesis by simp
    qed
  have s6: "js_mul (Fin 1000) (Fin (2389627976681295 / 2 ^ 51)) = (Fin (2333621070977827 / 2 ^ 41))"
    proof -
      have "fl (1000 * (2389627976681295 / 2 ^ 51)) = Fin (of_int 4667242141955654 * 2 ^ 10 / 2 ^ 52)"
        by (rule fl_near_big) (simp_all add: power_divide)
      then show ?thesis by simp
    qed
  have s7: "js_add (Fin (2389627976681295 / 2 ^ 51)) (Fin (- 1)) = (Fin (137828162996047 / 2 ^ 51))"
    proof -
      have "fl ((2389627976681295 / 2 ^ 51) + (- 1)) = Fin (of_int 8821002431747008 / 2 ^ (52 + 5))"
        by (rule fl_near_small) (simp_all add: power_divide)
      then show ?thesis by simp
    qed
  have s8: "js_div (Fin (2333621070977827 / 2 ^ 41)) (Fin (137828162996047 / 2 ^ 51)) = (Fin (595719991406817 / 2 ^ 35))"
    proof -
      have "fl ((2333621070977827 / 2 ^ 41) / (137828162996047 / 2 ^ 51)) = Fin (of_int 4765759931254536 * 2 ^ 14 / 2 ^ 52)"
        by (rule fl_near_big) (simp_all add: power_divide)
      then show ?thesis by simp
    qed
  have s9: "js_mul (Fin (595719991406817 / 2 ^ 35)) (Fin 100) = (Fin (1861624973146303 / 2 ^ 30))"
    proof -
      have "fl ((595719991406817 / 2 ^ 35) * 100) = Fin (of_int 7446499892585212 * 2 ^ 20 / 2 ^ 52)"
        by (rule fl_eval_big) (simp_all add: round_half_even_def Let_def power_divide)
      then show ?thesis by simp
    qed
  have s10: "Math_round (Fin (1861624973146303 / 2 ^ 30)) = (Fin 1733773)"
    by simp
  have s11: "js_div (Fin 1733773) (Fin 100) = (Fin (4765758933560197 / 2 ^ 38))"
    proof -
      have "fl (1733773 / 100) = Fin (of_int 4765758933560197 * 2 ^ 14 / 2 ^ 52)"
        by (rule fl_near_big) (simp_all add: power_divide)
      then show ?thesis by simp
    qed
  have s12: "fl 17337.73 = (Fin (4765758933560197 / 2 ^ 38))"
    proof -
      have "fl (17337.73) = Fin (of_int 4765758933560197 * 2 ^ 14 / 2 ^ 52)"
        by (rule fl_near_big) (simp_all add: power_divide)
      then show ?thesis by simp
    qed
  show ?thesis
    unfolding calculateEMI_def monthlyRate_of_def round2_def js_sub_def Let_def
    by (simp only: s1 s2 s3 s4 s5 s6 s7 s8 s9 s10 s11 s12 js_neg.simps)
qed

lemma sample_schedule:
  "generateAmortizationSchedule sample_runtime (Fin 50000) (Fin 24) (Fin 3) =
     Some [\<lparr>month = Fin 1, emi = fl 17337.73, principalPaid = fl 16337.73,
             interestPaid = Fin 1000, balance = fl 33662.27\<rparr>,
           \<lparr>month = Fin 2, emi = fl 17337.73, principalPaid = fl 16664.48,
             interestPaid = fl 673.25, balance = fl 16997.79\<rparr>,
           \<lparr>month = Fin 3, emi = fl 17337.73, principalPaid = fl 16997.77,
             interestPaid = fl 339.96, balance = fl 0.01\<rparr>]"
proof -
  have s1: "js_mul (Fin 12) (Fin 100) = (Fin 1200)"
    proof -
      have "fl (12 * 100) = Fin (of_int 5277655813324800 * 2 ^ 10 / 2 ^ 52)"
        by (rule fl_near_big) (simp_all add: power_divide)
      then show ?thesis by simp
    qed
  have s2: "js_div (Fin 24) (Fin 1200) = (Fin (5764607523034235 / 2 ^ 58))"
    proof -
      have "fl (24 / 1200) = Fin (of_int 5764607523034235 / 2 ^ (52 + 6))"
        by (rule fl_near_small) (simp_all add: power_divide)
      then show ?thesis by simp
    qed
  have s3: "js_add (Fin 1) (Fin (5764607523034235 / 2 ^ 58)) = (Fin (2296835809958953 / 2 ^ 51))"
    proof -
      have "fl (1 + (5764607523034235 / 2 ^ 58)) = Fin (of_int 4593671619917906 * 2 ^ 0 / 2 ^ 52)"
        by (rule fl_near_big) (simp_all add: power_divide)
      then show ?thesis by simp
    qed
  have s4: "Math_pow sample_runtime (Fin (2296835809958953 / 2 ^ 51)) (Fin 3) = (Fin (2389627976681295 / 2 ^ 51))"
    proof -
      have "fl ((2296835809958953 / 2 ^ 51) ^ 3) = Fin (of_int 4779255953362590 * 2 ^ 0 / 2 ^ 52)"
        by (rule fl_near_big) (simp_all add: power_divide)
      then show ?thesis by (simp add: sample_runtime_def)
    qed
  have s5: "js_mul (Fin 50000) (Fin (5764607523034235 / 2 ^ 58)) = (Fin 1000)"
    proof -
      have "fl (50000 * (5764607523034235 / 2 ^ 58)) = Fin (of_int 8796093022208000 * 2 ^ 9 / 2 ^ 52)"
        by (rule fl_near_big) (simp_all add: power_divide)
      then show ?thesis by simp
    qed
  have s6: "js_mul (Fin 1000) (Fin (2389627976681295 / 2 ^ 51)) = (Fin (2333621070977827 / 2 ^ 41))"
    proof -
      have "fl (1000 * (2389627976681295 / 2 ^ 51)) = Fin (of_int 4667242141955654 * 2 ^ 10 / 2 ^ 52)"
        by (rule fl_near_big) (simp_all add: power_divide)
      then show ?thesis by simp
    qed
  have s7: "js_add (Fin (2389627976681295 / 2 ^ 51)) (Fin (- 1)) = (Fin (137828162996047 / 2 ^ 51))"
    proof -
      have "fl ((2389627976681295 / 2 ^ 51) + (- 1)) = Fin (of_int 8821002431747008 / 2 ^ (52 + 5))"
        by (rule fl_near_small) (simp_all add: power_divide)
      then show ?thesis by simp
    qed
  have s8: "js_div (Fin (2333621070977827 / 2 ^ 41)) (Fin (137828162996047 / 2 ^ 51)) = (Fin (595719991406817 / 2 ^ 35))"
    proof -
      have "fl ((2333621070977827 / 2 ^ 41) / (137828162996047 / 2 ^ 51)) = Fin (of_int 4765759931254536 * 2 ^ 14 / 2 ^ 52)"
        by (rule fl_near_big) (simp_all add: power_divide)
      then show ?thesis by simp
    qed
  have s9: "js_mul (Fin (595719991406817 / 2 ^ 35)) (Fin 100) = (Fin (1861624973146303 / 2 ^ 30))"
    proof -
      have "fl ((595719991406817 / 2 ^ 35) * 100) = Fin (of_int 7446499892585212 * 2 ^ 20 / 2 ^ 52)"
        by (rule fl_eval_big) (simp_all add: round_half_even_def Let_def power_divide)
      then show ?thesis by simp
    qed
  have s10: "Math_round (Fin (1861624973146303 / 2 ^ 30)) = (Fin 1733773)"
    by simp
  have s11: "js_div (Fin 1733773) (Fin 100) = (Fin (4765758933560197 / 2 ^ 38))"
    proof -
      have "fl (1733773 / 100) = Fin (of_int 4765758933560197 * 2 ^ 14 / 2 ^ 52)"
        by (rule fl_near_big) (simp_all add: power_divide)
      then show ?thesis by simp
    qed
  have s12: "js_add (Fin (4765758933560197 / 2 ^ 38)) (Fin (- 1000)) = (Fin (4490881026616197 / 2 ^ 38))"
    proof -
      have "fl ((4765758933560197 / 2 ^ 38) + (- 1000)) = Fin (of_int 8981762053232394 * 2 ^ 13 / 2 ^ 52)"
        by (rule fl_near_big) (simp_all add: power_divide)
      then show ?thesis by simp
    qed
  have s13: "js_add (Fin 50000) (Fin (- (4490881026616197 / 2 ^ 38))) = (Fin (2313253580145951 / 2 ^ 36))"
    proof -
      have "fl (50000 + (- (4490881026616197 / 2 ^ 38))) = Fin (of_int 4626507160291902 * 2 ^ 15 / 2 ^ 52)"
        by (rule fl_eval_big) (simp_all add: round_half_even_def Let_def power_divide)
      then show ?thesis by simp
    qed
  have s14: "js_mul (Fin (4765758933560197 / 2 ^ 38)) (Fin 100) = (Fin 1733773)"
    proof -
      have "fl ((4765758933560197 / 2 ^ 38) * 100) = Fin (of_int 7446498333687808 * 2 ^ 20 / 2 ^ 52)"
        by (rule fl_near_big) (simp_all add: power_divide)
      then show ?thesis by simp
    qed
  have s15: "Math_round (Fin 1733773) = (Fin 1733773)"
    by simp
  have s16: "js_mul (Fin (4490881026616197 / 2 ^ 38)) (Fin 100) = (Fin 1633773)"
    proof -
      have "fl ((4490881026616197 / 2 ^ 38) * 100) = Fin (of_int 7017001604087808 * 2 ^ 20 / 2 ^ 52)"
        by (rule fl_near_big) (simp_all add: power_divide)
      then show ?thesis by simp
    qed
  have s17: "Math_round (Fin 1633773) = (Fin 1633773)"
    by simp
  have s18: "js_div (Fin 1633773) (Fin 100) = (Fin (4490881026616197 / 2 ^ 38))"
    proof -
      have "fl (1633773 / 100) = Fin (of_int 8981762053232394 * 2 ^ 13 / 2 ^ 52)"
        by (rule fl_near_big) (simp_all add: power_divide)
      then show ?thesis by simp
    qed
  have s19: "js_mul (Fin 1000) (Fin 100) = (Fin 100000)"
    proof -
      have "fl (1000 * 100) = Fin (of_int 6871947673600000 * 2 ^ 16 / 2 ^ 52)"
        by (rule fl_near_big) (simp_all add: power_divide)
      then show ?thesis by simp
    qed
  have s20: "Math_round (Fin 100000) = (Fin 100000)"
    by simp
  have s21: "js_div (Fin 100000) (Fin 100) = (Fin 1000)"
    proof -
      have "fl (100000 / 100) = Fin (of_int 8796093022208000 * 2 ^ 9 / 2 ^ 52)"
        by (rule fl_near_big) (simp_all add: power_divide)
      then show ?thesis by simp
    qed
  have s22: "js_mul (Fin (2313253580145951 / 2 ^ 36)) (Fin 100) = (Fin (7228917437956097 / 2 ^ 31))"
    proof -
      have "fl ((2313253580145951 / 2 ^ 36) * 100) = Fin (of_int 7228917437956097 * 2 ^ 21 / 2 ^ 52)"
        by (rule fl_near_big) (simp_all add: power_divide)
      then show ?thesis by simp
    qed
  have s23: "Math_round (Fin (7228917437956097 / 2 ^ 31)) = (Fin 3366227)"
    by simp
  have s24: "js_div (Fin 3366227) (Fin 100) = (Fin (4626507160291901 / 2 ^ 37))"
    proof -
      have "fl (3366227 / 100) = Fin (of_int 4626507160291901 * 2 ^ 15 / 2 ^ 52)"
        by (rule fl_near_big) (simp_all add: power_divide)
      then show ?thesis by simp
    qed
  have s25: "Math_max (Fin 0) (Fin (4626507160291901 / 2 ^ 37)) = (Fin (4626507160291901 / 2 ^ 37))"
    by (simp add: Math_max_def)
  have s26: "js_add (Fin 1) (Fin 1) = (Fin 2)"
    proof -
      have "fl (1 + 1) = Fin (of_int 4503599627370496 * 2 ^ 1 / 2 ^ 52)"
        by (rule fl_near_big) (simp_all add: power_divide)
      then show ?thesis by simp
    qed
  have s27: "js_mul (Fin (2313253580145951 / 2 ^ 36)) (Fin (5764607523034235 / 2 ^ 58)) = (Fin (5921929165173635 / 2 ^ 43))"
    proof -
      have "fl ((2313253580145951 / 2 ^ 36) * (5764607523034235 / 2 ^ 58)) = Fin (of_int 5921929165173635 * 2 ^ 9 / 2 ^ 52)"
        by (rule fl_near_big) (simp_all add: power_divide)
      then show ?thesis by simp
    qed
  have s28: "js_add (Fin (4765758933560197 / 2 ^ 38)) (Fin (- (5921929165173635 / 2 ^ 43))) = (Fin (4580698647148521 / 2 ^ 38))"
    proof -
      have "fl ((4765758933560197 / 2 ^ 38) + (- (5921929165173635 / 2 ^ 43))) = Fin (of_int 4580698647148521 * 2 ^ 14 / 2 ^ 52)"
        by (rule fl_near_big) (simp_all add: power_divide)
      then show ?thesis by simp
    qed
  have s29: "js_add (Fin (2313253580145951 / 2 ^ 36)) (Fin (- (4580698647148521 / 2 ^ 38))) = (Fin (4672315673435283 / 2 ^ 38))"
    proof -
      have "fl ((2313253580145951 / 2 ^ 36) + (- (4580698647148521 / 2 ^ 38))) = Fin (of_int 4672315673435283 * 2 ^ 14 / 2 ^ 52)"
        by (rule fl_near_big) (simp_all add: power_divide)
      then show ?thesis by simp
    qed
  have s30: "js_mul (Fin (4580698647148521 / 2 ^ 38)) (Fin 100) = (Fin (1789335409042391 / 2 ^ 30))"
    proof -
      have "fl ((4580698647148521 / 2 ^ 38) * 100) = Fin (of_int 7157341636169564 * 2 ^ 20 / 2 ^ 52)"
        by (rule fl_near_big) (simp_all add: power_divide)
      then show ?thesis by simp
    qed
  have s31: "Math_round (Fin (1789335409042391 / 2 ^ 30)) = (Fin 1666448)"
    by simp
  have s32: "js_div (Fin 1666448) (Fin 100) = (Fin (4580697382710149 / 2 ^ 38))"
    proof -
      have "fl (1666448 / 100) = Fin (of_int 4580697382710149 * 2 ^ 14 / 2 ^ 52)"
        by (rule fl_near_big) (simp_all add: power_divide)
      then show ?thesis by simp
    qed
  have s33: "js_mul (Fin (5921929165173635 / 2 ^ 43)) (Fin 100) = (Fin (2313253580145951 / 2 ^ 35))"
    proof -
      have "fl ((5921929165173635 / 2 ^ 43) * 100) = Fin (of_int 4626507160291902 * 2 ^ 16 / 2 ^ 52)"
        by (rule fl_near_big) (simp_all add: power_divide)
      then show ?thesis by simp
    qed
  have s34: "Math_round (Fin (2313253580145951 / 2 ^ 35)) = (Fin 67325)"
    by simp
  have s35: "js_div (Fin 67325) (Fin 100) = (Fin (2693 / 2 ^ 2))"
    proof -
      have "fl (67325 / 100) = Fin (of_int 5921969627201536 * 2 ^ 9 / 2 ^ 52)"
        by (rule fl_near_big) (simp_all add: power_divide)
      then show ?thesis by simp
    qed
  have s36: "js_mul (Fin (4672315673435283 / 2 ^ 38)) (Fin 100) = (Fin (3650246619871315 / 2 ^ 31))"
    proof -
      have "fl ((4672315673435283 / 2 ^ 38) * 100) = Fin (of_int 7300493239742630 * 2 ^ 20 / 2 ^ 52)"
        by (rule fl_near_big) (simp_all add: power_divide)
      then show ?thesis by simp
    qed
  have s37: "Math_round (Fin (3650246619871315 / 2 ^ 31)) = (Fin 1699779)"
    by simp
  have s38: "js_div (Fin 1699779) (Fin 100) = (Fin (2336158468936827 / 2 ^ 37))"
    proof -
      have "fl (1699779 / 100) = Fin (of_int 4672316937873654 * 2 ^ 14 / 2 ^ 52)"
        by (rule fl_near_big) (simp_all add: power_divide)
      then show ?thesis by simp
    qed
  have s39: "Math_max (Fin 0) (Fin (2336158468936827 / 2 ^ 37)) = (Fin (2336158468936827 / 2 ^ 37))"
    by (simp add: Math_max_def)
  have s40: "js_add (Fin 2) (Fin 1) = (Fin 3)"
    proof -
      have "fl (2 + 1) = Fin (of_int 6755399441055744 * 2 ^ 1 / 2 ^ 52)"
        by (rule fl_near_big) (simp_all add: power_divide)
      then show ?thesis by simp
    qed
  have s41: "js_mul (Fin (4672315673435283 / 2 ^ 38)) (Fin (5764607523034235 / 2 ^ 58)) = (Fin (2990282030998581 / 2 ^ 43))"
    proof -
      have "fl ((4672315673435283 / 2 ^ 38) * (5764607523034235 / 2 ^ 58)) = Fin (of_int 5980564061997162 * 2 ^ 8 / 2 ^ 52)"
        by (rule fl_near_big) (simp_all add: power_divide)
      then show ?thesis by simp
    qed
  have s42: "js_add (Fin (4765758933560197 / 2 ^ 38)) (Fin (- (2990282030998581 / 2 ^ 43))) = (Fin (4672312620091491 / 2 ^ 38))"
    proof -
      have "fl ((4765758933560197 / 2 ^ 38) + (- (2990282030998581 / 2 ^ 43))) = Fin (of_int 4672312620091491 * 2 ^ 14 / 2 ^ 52)"
        by (rule fl_near_big) (simp_all add: power_divide)
      then show ?thesis by simp
    qed
  have s43: "js_add (Fin (4672315673435283 / 2 ^ 38)) (Fin (- (4672312620091491 / 2 ^ 38))) = (Fin (190833987 / 2 ^ 34))"
    proof -
      have "fl ((4672315673435283 / 2 ^ 38) + (- (4672312620091491 / 2 ^ 38))) = Fin (of_int 6403326040080384 / 2 ^ (52 + 7))"
        by (rule fl_near_small) (simp_all add: power_divide)
      then show ?thesis by simp
    qed
  have s44: "js_mul (Fin (4672312620091491 / 2 ^ 38)) (Fin 100) = (Fin (7300488468892955 / 2 ^ 32))"
    proof -
      have "fl ((4672312620091491 / 2 ^ 38) * 100) = Fin (of_int 7300488468892955 * 2 ^ 20 / 2 ^ 52)"
        by (rule fl_near_big) (simp_all add: power_divide)
      then show ?thesis by simp
    qed
  have s45: "Math_round (Fin (7300488468892955 / 2 ^ 32)) = (Fin 1699777)"
    by simp
  have s46: "js_div (Fin 1699777) (Fin 100) = (Fin (4672311440315515 / 2 ^ 38))"
    proof -
      have "fl (1699777 / 100) = Fin (of_int 4672311440315515 * 2 ^ 14 / 2 ^ 52)"
        by (rule fl_near_big) (simp_all add: power_divide)
      then show ?thesis by simp
    qed
  have s47: "js_mul (Fin (2990282030998581 / 2 ^ 43)) (Fin 100) = (Fin (4672315673435283 / 2 ^ 37))"
    proof -
      have "fl ((2990282030998581 / 2 ^ 43) * 100) = Fin (of_int 4672315673435283 * 2 ^ 15 / 2 ^ 52)"
        by (rule fl_near_big) (simp_all add: power_divide)
      then show ?thesis by simp
    qed
  have s48: "Math_round (Fin (4672315673435283 / 2 ^ 37)) = (Fin 33996)"
    by simp
  have s49: "js_div (Fin 33996) (Fin 100) = (Fin (5980639567659663 / 2 ^ 44))"
    proof -
      have "fl (33996 / 100) = Fin (of_int 5980639567659663 * 2 ^ 8 / 2 ^ 52)"
        by (rule fl_near_big) (simp_all add: power_divide)
      then show ?thesis by simp
    qed
  have s50: "js_mul (Fin (190833987 / 2 ^ 34)) (Fin 100) = (Fin (4770849675 / 2 ^ 32))"
    proof -
      have "fl ((190833987 / 2 ^ 34) * 100) = Fin (of_int 5002598468812800 * 2 ^ 0 / 2 ^ 52)"
        by (rule fl_near_big) (simp_all add: power_divide)
      then show ?thesis by simp
    qed
  have s51: "Math_round (Fin (4770849675 / 2 ^ 32)) = (Fin 1)"
    by simp
  have s52: "js_div (Fin 1) (Fin 100) = (Fin (5764607523034235 / 2 ^ 59))"
    proof -
      have "fl (1 / 100) = Fin (of_int 5764607523034235 / 2 ^ (52 + 7))"
        by (rule fl_near_small) (simp_all add: power_divide)
      then show ?thesis by simp
    qed
  have s53: "Math_max (Fin 0) (Fin (5764607523034235 / 2 ^ 59)) = (Fin (5764607523034235 / 2 ^ 59))"
    by (simp add: Math_max_def)
  have s54: "js_add (Fin 3) (Fin 1) = (Fin 4)"
    proof -
      have "fl (3 + 1) = Fin (of_int 4503599627370496 * 2 ^ 2 / 2 ^ 52)"
        by (rule fl_near_big) (simp_all add: power_divide)
      then show ?thesis by simp
    qed
  have s55: "fl 17337.73 = (Fin (4765758933560197 / 2 ^ 38))"
    proof -
      have "fl (17337.73) = Fin (of_int 4765758933560197 * 2 ^ 14 / 2 ^ 52)"
        by (rule fl_near_big) (simp_all add: power_divide)
      then show ?thesis by simp
    qed
  have s56: "fl 16337.73 = (Fin (4490881026616197 / 2 ^ 38))"
    proof -
      have "fl (16337.73) = Fin (of_int 8981762053232394 * 2 ^ 13 / 2 ^ 52)"
        by (rule fl_near_big) (simp_all add: power_divide)
      then show ?thesis by simp
    qed
  have s57: "fl 33662.27 = (Fin (4626507160291901 / 2 ^ 37))"
    proof -
      have "fl (33662.27) = Fin (of_int 4626507160291901 * 2 ^ 15 / 2 ^ 52)"
        by (rule fl_near_big) (simp_all add: power_divide)
      then show ?thesis by simp
    qed
  have s58: "fl 16664.48 = (Fin (4580697382710149 / 2 ^ 38))"
    proof -
      have "fl (16664.48) = Fin (of_int 4580697382710149 * 2 ^ 14 / 2 ^ 52)"
        by (rule fl_near_big) (simp_all add: power_divide)
      then show ?thesis by simp
    qed
  have s59: "fl 673.25 = (Fin (2693 / 2 ^ 2))"
    proof -
      have "fl (673.25) = Fin (of_int 5921969627201536 * 2 ^ 9 / 2 ^ 52)"
        by (rule fl_near_big) (simp_all add: power_divide)
      then show ?thesis by simp
    qed
  have s60: "fl 16997.79 = (Fin (2336158468936827 / 2 ^ 37))"
    proof -
      have "fl (16997.79) = Fin (of_int 4672316937873654 * 2 ^ 14 / 2 ^ 52)"
        by (rule fl_near_big) (simp_all add: power_divide)
      then show ?thesis by simp
    qed
  have s61: "fl 16997.77 = (Fin (4672311440315515 / 2 ^ 38))"
    proof -
      have "fl (16997.77) = Fin (of_int 4672311440315515 * 2 ^ 14 / 2 ^ 52)"
        by (rule fl_near_big) (simp_all add: power_divide)
      then show ?thesis by simp
    qed
  have s62: "fl 339.96 = (Fin (5980639567659663 / 2 ^ 44))"
    proof -
      have "fl (339.96) = Fin (of_int 5980639567659663 * 2 ^ 8 / 2 ^ 52)"
        by (rule fl_near_big) (simp_all add: power_divide)
      then show ?thesis by simp
    qed
  have s63: "fl 0.01 = (Fin (5764607523034235 / 2 ^ 59))"
    proof -
      have "fl (0.01) = Fin (of_int 5764607523034235 / 2 ^ (52 + 7))"
        by (rule fl_near_small) (simp_all add: power_divide)
      then show ?thesis by simp
    qed
  have n: "turns (Fin 3) = Suc (Suc (Suc 0))" by simp
  have cap: "Suc (Suc (Suc 0)) \<le> capacity sample_runtime"
    by (simp add: capacity_def sample_runtime_def)
  show ?thesis
    unfolding generate_steps
    by (simp only: cap n schedule_steps.simps schedule_entry_def next_balance_def calculateEMI_def monthlyRate_of_def round2_def js_sub_def Let_def
          s1 s2 s3 s4 s5 s6 s7 s8 s9 s10 s11 s12 s13 s14 s15 s16 s17 s18 s19 s20 s21 s22 s23 s24 s25 s26 s27 s28 s29 s30 s31 s32 s33 s34 s35 s36 s37 s38 s39 s40 s41 s42 s43 s44 s45 s46 s47 s48 s49 s50 s51 s52 s53 s54 s55 s56 s57 s58 s59 s60 s61 s62 s63 js_neg.simps jsnum.distinct simp_thms if_True)
qed

lemma double_17337_73: "fl 17337.73 = (Fin (4765758933560197 / 2 ^ 38))"
proof -
  have "fl (17337.73) = Fin (of_int 4765758933560197 * 2 ^ 14 / 2 ^ 52)"
    by (rule fl_near_big) (simp_all add: power_divide)
  then show ?thesis by simp
qed






lemma sample_emi_large:
  "calculateEMI sample_runtime (Fin 120908260345458) (Fin 6) (Fin 3) = fl 40706451019046.7"
proof -
  have s1: "js_mul (Fin 12) (Fin 100) = (Fin 1200)"
    proof -
      have "fl (12 * 100) = Fin (of_int 5277655813324800 * 2 ^ 10 / 2 ^ 52)"
        by (rule fl_near_big) (simp_all add: power_divide)
      then show ?thesis by simp
    qed
  have s2: "js_div (Fin 6) (Fin 1200) = (Fin (5764607523034235 / 2 ^ 60))"
    proof -
      have "fl (6 / 1200) = Fin (of_int 5764607523034235 / 2 ^ (52 + 8))"
        by (rule fl_near_small) (simp_all add: power_divide)
      then show ?thesis by simp
    qed
  have s3: "js_add (Fin 1) (Fin (5764607523034235 / 2 ^ 60)) = (Fin (1131529406376837 / 2 ^ 50))"
    proof -
      have "fl (1 + (5764607523034235 / 2 ^ 60)) = Fin (of_int 4526117625507348 * 2 ^ 0 / 2 ^ 52)"
        by (rule fl_near_big) (simp_all add: power_divide)
      then show ?thesis by simp
    qed
  have s4: "Math_pow sample_runtime (Fin (1131529406376837 / 2 ^ 50)) (Fin 3) = (Fin (2285745977351529 / 2 ^ 51))"
    proof -
      have "fl ((1131529406376837 / 2 ^ 50) ^ 3) = Fin (of_int 4571491954703058 * 2 ^ 0 / 2 ^ 52)"
        by (rule fl_near_big) (simp_all add: power_divide)
      then show ?thesis by (simp add: sample_runtime_def)
    qed
  have s5: "js_mul (Fin 120908260345458) (Fin (5764607523034235 / 2 ^ 60)) = (Fin (619050292968745 / 2 ^ 10))"
    proof -
      have "fl (120908260345458 * (5764607523034235 / 2 ^ 60)) = Fin (of_int 4952402343749960 * 2 ^ 39 / 2 ^ 52)"
        by (rule fl_near_big) (simp_all add: power_divide)
      then show ?thesis by simp
    qed
  have s6: "js_mul (Fin (619050292968745 / 2 ^ 10)) (Fin (2285745977351529 / 2 ^ 51)) = (Fin (2513530214066141 / 2 ^ 12))"
    proof -
      have "fl ((619050292968745 / 2 ^ 10) * (2285745977351529 / 2 ^ 51)) = Fin (of_int 5027060428132282 * 2 ^ 39 / 2 ^ 52)"
        by (rule fl_near_big) (simp_all add: power_divide)
      then show ?thesis by simp
    qed
  have s7: "js_add (Fin (2285745977351529 / 2 ^ 51)) (Fin (- 1)) = (Fin (33946163666281 / 2 ^ 51))"
    proof -
      have "fl ((2285745977351529 / 2 ^ 51) + (- 1)) = Fin (of_int 8690217898567936 / 2 ^ (52 + 7))"
        by (rule fl_near_small) (simp_all add: power_divide)
      then show ?thesis by simp
    qed
  have s8: "js_div (Fin (2513530214066141 / 2 ^ 12)) (Fin (33946163666281 / 2 ^ 51)) = (Fin (5210425730437977 / 2 ^ 7))"
    proof -
      have "fl ((2513530214066141 / 2 ^ 12) / (33946163666281 / 2 ^ 51)) = Fin (of_int 5210425730437977 * 2 ^ 45 / 2 ^ 52)"
        by (rule fl_near_big) (simp_all add: power_divide)
      then show ?thesis by simp
    qed
  have s9: "js_mul (Fin (5210425730437977 / 2 ^ 7)) (Fin 100) = (Fin (8141290203809339 / 2 ^ 1))"
    proof -
      have "fl ((5210425730437977 / 2 ^ 7) * 100) = Fin (of_int 8141290203809339 * 2 ^ 51 / 2 ^ 52)"
        by (rule fl_near_big) (simp_all add: power_divide)
      then show ?thesis by simp
    qed
  have s10: "Math_round (Fin (8141290203809339 / 2 ^ 1)) = (Fin 4070645101904670)"
    by simp
  have s11: "js_div (Fin 4070645101904670) (Fin 100) = (Fin (2605212865218989 / 2 ^ 6))"
    proof -
      have "fl (4070645101904670 / 100) = Fin (of_int 5210425730437978 * 2 ^ 45 / 2 ^ 52)"
        by (rule fl_near_big) (simp_all add: power_divide)
      then show ?thesis by simp
    qed
  have s12: "fl 40706451019046.7 = (Fin (2605212865218989 / 2 ^ 6))"
    proof -
      have "fl (40706451019046.7) = Fin (of_int 5210425730437978 * 2 ^ 45 / 2 ^ 52)"
        by (rule fl_near_big) (simp_all add: power_divide)
      then show ?thesis by simp
    qed
  show ?thesis
    unfolding calculateEMI_def monthlyRate_of_def round2_def js_sub_def Let_def
    by (simp only: s1 s2 s3 s4 s5 s6 s7 s8 s9 s10 s11 s12 js_neg.simps)
qed

lemma sample_emi_large_again: "round2 (fl 40706451019046.7) = fl 40706451019046.71"
proof -
  have s1: "fl 40706451019046.7 = (Fin (2605212865218989 / 2 ^ 6))"
    proof -
      have "fl (40706451019046.7) = Fin (of_int 5210425730437978 * 2 ^ 45 / 2 ^ 52)"
        by (rule fl_near_big) (simp_all add: power_divide)
      then show ?thesis by simp
    qed
  have s2: "js_mul (Fin (2605212865218989 / 2 ^ 6)) (Fin 100) = (Fin (8141290203809341 / 2 ^ 1))"
    proof -
      have "fl ((2605212865218989 / 2 ^ 6) * 100) = Fin (of_int 8141290203809341 * 2 ^ 51 / 2 ^ 52)"
        by (rule fl_near_big) (simp_all add: power_divide)
      then show ?thesis by simp
    qed
  have s3: "Math_round (Fin (8141290203809341 / 2 ^ 1)) = (Fin 4070645101904671)"
    by simp
  have s4: "js_div (Fin 4070645101904671) (Fin 100) = (Fin (5210425730437979 / 2 ^ 7))"
    proof -
      have "fl (4070645101904671 / 100) = Fin (of_int 5210425730437979 * 2 ^ 45 / 2 ^ 52)"
        by (rule fl_near_big) (simp_all add: power_divide)
      then show ?thesis by simp
    qed
  have s5: "fl 40706451019046.71 = (Fin (5210425730437979 / 2 ^ 7))"
    proof -
      have "fl (40706451019046.71) = Fin (of_int 5210425730437979 * 2 ^ 45 / 2 ^ 52)"
        by (rule fl_near_big) (simp_all add: power_divide)
      then show ?thesis by simp
    qed
  show ?thesis
    unfolding round2_def
    by (simp only: s1 s2 s3 s4 s5)
qed

lemma double_40706451019046_7: "fl 40706451019046.7 = (Fin (2605212865218989 / 2 ^ 6))"
proof -
  have "fl (40706451019046.7) = Fin (of_int 5210425730437978 * 2 ^ 45 / 2 ^ 52)"
    by (rule fl_near_big) (simp_all add: power_divide)
  then show ?thesis by simp
qed

lemma double_40706451019046_71: "fl 40706451019046.71 = (Fin (5210425730437979 / 2 ^ 7))"
proof -
  have "fl (40706451019046.71) = Fin (of_int 5210425730437979 * 2 ^ 45 / 2 ^ 52)"
    by (rule fl_near_big) (simp_all add: power_divide)
  then show ?thesis by simp
qed



lemma double_8884_88: "fl 8884.88 = (Fin (4884514435697213 / 2 ^ 39))"
proof -
  have "fl (8884.88) = Fin (of_int 4884514435697213 * 2 ^ 13 / 2 ^ 52)"
    by (rule fl_near_big) (simp_all add: power_divide)
  then show ?thesis by simp
qed
section \<open>Rounding to cents twice\<close>

lemma fl_rel_error_Fin:
  assumes lo: "2 powr (- 1022) \<le> \<bar>x\<bar>" and fin: "fl x = Fin y"
  shows "\<bar>y - x\<bar> \<le> \<bar>x\<bar> / 2 ^ 53"
proof -
  have "(0::real) < 2 powr (- 1022)" by simp
  then have x0: "x \<noteq> 0" using lo by auto
  define e where "e = \<lfloor>log 2 \<bar>x\<bar>\<rfloor>"
  have e1: "2 powr of_int e \<le> \<bar>x\<bar>" and e2: "\<bar>x\<bar> < 2 powr (of_int e + 1)"
    using floor_log2[OF x0] by (simp_all add: e_def)
  have "(2::real) powr (- 1022) < 2 powr (of_int e + 1)" using lo e2 by linarith
  then have "(- 1022 :: real) < of_int e + 1" by simp
  then have eb: "- 1022 \<le> e" by linarith
  define q where "q = (2::real) powr of_int (e - 52)"
  define z where "z = of_int (round_half_even (x / q)) * q"
  have q0: "0 < q" by (simp add: q_def)
  have "z - x = (of_int (round_half_even (x / q)) - x / q) * q"
    using q0 by (simp add: z_def left_diff_distrib)
  then have "\<bar>z - x\<bar> = \<bar>of_int (round_half_even (x / q)) - x / q\<bar> * q"
    using q0 by (simp add: abs_mult)
  also have "\<dots> \<le> (1 / 2) * q"
    using round_half_even_near[of "x / q"] q0 by (intro mult_right_mono) auto
  also have "\<dots> = 2 powr of_int e / 2 ^ 53"
    unfolding q_def powr_int_diff52 by simp
  also have "\<dots> \<le> \<bar>x\<bar> / 2 ^ 53" using e1 by (simp add: divide_right_mono)
  finally have err: "\<bar>z - x\<bar> \<le> \<bar>x\<bar> / 2 ^ 53" .
  have "y = z"
    using fl_form[OF e1 e2 eb q_def z_def] fin by (simp split: if_splits)
  with err show ?thesis by simp
qed

lemma round2_cents:
  assumes "round2 x = Fin y"
  shows "\<exists>k. fl (of_int k / 100) = Fin y"
proof (cases "js_mul x (Fin 100)")
  case (Fin z)
  then have "fl (of_int \<lfloor>z + 1 / 2\<rfloor> / 100) = Fin y"
    using assms by (simp add: round2_def)
  then show ?thesis by blast
qed (use assms in \<open>simp_all add: round2_def inf_of_sign_def\<close>)

lemma cents_again:
  assumes fin: "fl (of_int k / 100) = Fin y" and small: "\<bar>y\<bar> \<le> 10 ^ 13"
  shows "round2 (Fin y) = Fin y"
proof (cases "k = 0")
  case True
  then have "y = 0" using fin by (simp add: fl_zero)
  then show ?thesis by (simp add: round2_def fl_zero)
next
  case False
  define x :: real where "x = of_int k / 100"
  have k1: "1 \<le> \<bar>of_int k :: real\<bar>"
  proof -
    have "1 \<le> \<bar>k\<bar>" using False by simp
    then have "(of_int 1 :: real) \<le> of_int \<bar>k\<bar>" by (simp only: of_int_le_iff)
    then show ?thesis by simp
  qed
  have tiny: "(2::real) powr (- 1022) \<le> 1 / 128"
  proof -
    have "(2::real) powr (- 1022) \<le> 2 powr (- 7)" by (intro powr_mono) auto
    also have "\<dots> = 1 / 2 ^ 7" by (simp add: powr_minus_divide powr_numeral)
    finally show ?thesis by simp
  qed
  have xk: "\<bar>x\<bar> = \<bar>of_int k\<bar> / 100" by (simp add: x_def)
  have lo: "2 powr (- 1022) \<le> \<bar>x\<bar>" using k1 tiny xk by linarith
  have e1: "\<bar>y - x\<bar> \<le> \<bar>x\<bar> / 2 ^ 53"
    using fl_rel_error_Fin[OF lo] fin by (simp add: x_def)
  have "\<bar>x\<bar> - \<bar>x\<bar> / 2 ^ 53 \<le> \<bar>y\<bar>" using e1 by linarith
  then have "\<bar>x\<bar> * (1 - 1 / 2 ^ 53) \<le> 10 ^ 13" using small by (simp add: algebra_simps)
  then have xb: "\<bar>x\<bar> \<le> 10 ^ 13 + 1" by simp
  have yb: "\<bar>y\<bar> \<le> \<bar>x\<bar> + \<bar>x\<bar> / 2 ^ 53" and yl: "\<bar>x\<bar> - \<bar>x\<bar> / 2 ^ 53 \<le> \<bar>y\<bar>"
    using e1 by linarith+
  have lo2: "2 powr (- 1022) \<le> \<bar>y * 100\<bar>"
  proof -
    have "1 / 128 \<le> \<bar>x\<bar> - \<bar>x\<bar> / 2 ^ 53" using k1 xk by simp
    then have "1 / 128 \<le> \<bar>y\<bar>" using yl by linarith
    then have "1 / 128 \<le> \<bar>y * 100\<bar>" by (simp add: abs_mult)
    then show ?thesis using tiny by linarith
  qed
  have hi2: "\<bar>y * 100\<bar> \<le> 2 ^ 1023"
  proof -
    have "\<bar>y * 100\<bar> \<le> 10 ^ 15" using small by (simp add: abs_mult)
    also have "\<dots> \<le> (2 ^ 1023 :: real)" by simp
    finally show ?thesis .
  qed
  obtain z where z: "fl (y * 100) = Fin z" and e2: "\<bar>z - y * 100\<bar> \<le> \<bar>y * 100\<bar> / 2 ^ 53"
    using fl_rel_error[OF lo2 hi2] by blast
  have t1: "\<bar>z - of_int k\<bar> \<le> \<bar>z - y * 100\<bar> + \<bar>y * 100 - of_int k\<bar>" by linarith
  have t2: "\<bar>y * 100 - of_int k\<bar> = 100 * \<bar>y - x\<bar>"
  proof -
    have "y * 100 - of_int k = 100 * (y - x)" by (simp add: x_def)
    then show ?thesis by (simp only: abs_mult)
  qed
  have t3: "\<bar>z - y * 100\<bar> \<le> 100 * \<bar>y\<bar> / 2 ^ 53"
    using e2 by (simp add: abs_mult)
  have "\<bar>z - y * 100\<bar> + \<bar>y * 100 - of_int k\<bar> \<le> 100 * \<bar>y\<bar> / 2 ^ 53 + 100 * \<bar>y - x\<bar>"
    using t3 unfolding t2 by (rule add_right_mono)
  with t1 have "\<bar>z - of_int k\<bar> \<le> 100 * \<bar>y\<bar> / 2 ^ 53 + 100 * \<bar>y - x\<bar>"
    by (rule order_trans)
  also have "\<dots> \<le> 100 * (\<bar>x\<bar> + \<bar>x\<bar> / 2 ^ 53) / 2 ^ 53 + 100 * (\<bar>x\<bar> / 2 ^ 53)"
    using yb e1 by (intro add_mono mult_left_mono divide_right_mono) auto
  also have "\<dots> \<le> 100 * ((10 ^ 13 + 1) + (10 ^ 13 + 1) / 2 ^ 53) / 2 ^ 53
                   + 100 * ((10 ^ 13 + 1) / 2 ^ 53)"
    using xb by (intro add_mono mult_left_mono divide_right_mono) auto
  also have "\<dots> < 1 / 2" by simp
  finally have near: "\<bar>z - of_int k\<bar> < 1 / 2" .
  have "\<lfloor>z + 1 / 2\<rfloor> = k" using near by linarith
  then show ?thesis using z fin by (simp add: round2_def)
qed

lemma round2_again:
  assumes "round2 x = Fin y" and "\<bar>y\<bar> \<le> 10 ^ 13"
  shows "round2 (Fin y) = Fin y"
  using round2_cents[OF assms(1)] cents_again assms(2) by blast

lemma calculateEMI_again:
  assumes "\<forall>y. calculateEMI rt p r t = Fin y \<longrightarrow> \<bar>y\<bar> \<le> 10 ^ 13"
  shows "round2 (calculateEMI rt p r t) = calculateEMI rt p r t"
proof (cases "calculateEMI rt p r t")
  case (Fin y)
  then have "\<bar>y\<bar> \<le> 10 ^ 13" using assms by simp
  moreover have "\<exists>x. round2 x = Fin y"
    using Fin unfolding calculateEMI_def Let_def by blast
  ultimately show ?thesis using Fin round2_again by auto
qed (simp_all add: round2_NaN round2_PosInf round2_NegInf)

lemma schedule_steps_emis:
  "map emi (schedule_steps n rate e mth bal) = replicate n (round2 e)"
  by (induction n arbitrary: mth bal) (simp_all add: schedule_entry_def Let_def)

lemma turns_pos: "js_le (Fin 1) t \<Longrightarrow> t \<noteq> PosInf \<Longrightarrow> 0 < turns t"
  by (cases t) (auto simp add: js_le_def)

section \<open>The installment of every entry\<close>

text \<open>
  Claim C6 says that \<open>calculateEMI(p, r, t)\<close> equals the \<open>emi\<close> field of every entry
  of the schedule, for all inputs. The schedule rounds the installment to cents once more
  (\<open>Math.round(emi * 100) / 100\<close>), and on doubles that is not always the identity: for
  a principal of 120908260345458 at 6 percent over 3 months, \<open>calculateEMI\<close> returns
  40706451019046.7 and every entry has 40706451019046.71.
\<close>

theorem schedule_emi_counterexample:
  "calculateEMI sample_runtime (Fin 120908260345458) (Fin 6) (Fin 3) = fl 40706451019046.7
   \<and> map_option (map emi)
        (generateAmortizationSchedule sample_runtime (Fin 120908260345458) (Fin 6) (Fin 3))
       = Some [fl 40706451019046.71, fl 40706451019046.71, fl 40706451019046.71]
   \<and> fl 40706451019046.7 \<noteq> fl 40706451019046.71"
proof -
  have cap: "turns (Fin 3) \<le> capacity sample_runtime"
    by (simp add: capacity_def sample_runtime_def)
  have emis: "map_option (map emi)
        (generateAmortizationSchedule sample_runtime (Fin 120908260345458) (Fin 6) (Fin 3))
      = Some [round2 (calculateEMI sample_runtime (Fin 120908260345458) (Fin 6) (Fin 3)),
              round2 (calculateEMI sample_runtime (Fin 120908260345458) (Fin 6) (Fin 3)),
              round2 (calculateEMI sample_runtime (Fin 120908260345458) (Fin 6) (Fin 3))]"
    unfolding generate_steps using cap
    by (simp add: schedule_steps_emis numeral_3_eq_3 del: schedule_steps.simps)
  have ne: "fl 40706451019046.7 \<noteq> fl 40706451019046.71"
    unfolding double_40706451019046_7 double_40706451019046_71 by simp
  show ?thesis
    unfolding emis sample_emi_large sample_emi_large_again
    by (intro conjI refl ne)
qed

text \<open>
  Claim C6 as amended. Whenever \<open>generateAmortizationSchedule(p, r, t)\<close> returns a
  schedule, the \<open>emi\<close> field of every entry is the result of \<open>calculateEMI(p, r, t)\<close>
  rounded to cents once more. It is that result itself whenever the result is \<open>NaN\<close>,
  an infinity, or at most \<open>10 ^ 13\<close> in magnitude. For a term of at least \<open>1\<close> the
  schedule has a first entry, of period \<open>1\<close>.
\<close>

theorem schedule_emi_field:
  assumes "generateAmortizationSchedule rt p r t = Some s"
  shows "(\<forall>x \<in> set s. emi x = round2 (calculateEMI rt p r t))
       \<and> ((\<forall>y. calculateEMI rt p r t = Fin y \<longrightarrow> \<bar>y\<bar> \<le> 10 ^ 13) \<longrightarrow>
            (\<forall>x \<in> set s. emi x = calculateEMI rt p r t))
       \<and> (js_le (Fin 1) t \<longrightarrow>
            s \<noteq> [] \<and> month (hd s) = Fin 1 \<and> emi (hd s) = round2 (calculateEMI rt p r t))"
proof -
  let ?s = "schedule_steps (turns t) (monthlyRate_of r) (calculateEMI rt p r t) (Fin 1) p"
  have ok: "t \<noteq> PosInf" and s: "s = ?s"
    using assms by (simp_all add: generate_steps split: if_splits)
  have all: "\<forall>x \<in> set s. emi x = round2 (calculateEMI rt p r t)"
    unfolding s using schedule_steps_emi by blast
  have first: "s \<noteq> [] \<and> month (hd s) = Fin 1 \<and> emi (hd s) = round2 (calculateEMI rt p r t)"
    if le1: "js_le (Fin 1) t"
  proof -
    obtain k where k: "turns t = Suc k"
      using turns_pos[OF le1 ok] by (cases "turns t") auto
    show ?thesis unfolding s by (simp add: k schedule_entry_def Let_def)
  qed
  show ?thesis using all first calculateEMI_again[of rt p r t] by auto
qed

theorem schedule_emi_field_witness:
  "generateAmortizationSchedule sample_runtime (Fin 50000) (Fin 24) (Fin 3) = Some
     [\<lparr>month = Fin 1, emi = fl 17337.73, principalPaid = fl 16337.73,
        interestPaid = Fin 1000, balance = fl 33662.27\<rparr>,
      \<lparr>month = Fin 2, emi = fl 17337.73, principalPaid = fl 16664.48,
        interestPaid = fl 673.25, balance = fl 16997.79\<rparr>,
      \<lparr>month = Fin 3, emi = fl 17337.73, principalPaid = fl 16997.77,
        interestPaid = fl 339.96, balance = fl 0.01\<rparr>]
   \<and> calculateEMI sample_runtime (Fin 50000) (Fin 24) (Fin 3) = fl 17337.73
   \<and> fl 17337.73 = Fin (4765758933560197 / 2 ^ 38)
   \<and> \<bar>4765758933560197 / 2 ^ 38 :: real\<bar> \<le> 10 ^ 13
   \<and> js_le (Fin 1) (Fin 3)
   \<and> map emi
     [\<lparr>month = Fin 1, emi = fl 17337.73, principalPaid = fl 16337.73,
        interestPaid = Fin 1000, balance = fl 33662.27\<rparr>,
      \<lparr>month = Fin 2, emi = fl 17337.73, principalPaid = fl 16664.48,
        interestPaid = fl 673.25, balance = fl 16997.79\<rparr>,
      \<lparr>month = Fin 3, emi = fl 17337.73, principalPaid = fl 16997.77,
        interestPaid = fl 339.96, balance = fl 0.01\<rparr>]
     = replicate 3 (calculateEMI sample_runtime (Fin 50000) (Fin 24) (Fin 3))"
proof -
  let ?s = "[\<lparr>month = Fin 1, emi = fl 17337.73, principalPaid = fl 16337.73,
        interestPaid = Fin 1000, balance = fl 33662.27\<rparr>,
      \<lparr>month = Fin 2, emi = fl 17337.73, principalPaid = fl 16664.48,
        interestPaid = fl 673.25, balance = fl 16997.79\<rparr>,
      \<lparr>month = Fin 3, emi = fl 17337.73, principalPaid = fl 16997.77,
        interestPaid = fl 339.96, balance = fl 0.01\<rparr>]"
  note th = schedule_emi_field[OF sample_schedule]
  have small: "\<forall>y. calculateEMI sample_runtime (Fin 50000) (Fin 24) (Fin 3) = Fin y
                 \<longrightarrow> \<bar>y\<bar> \<le> 10 ^ 13"
    unfolding sample_emi_50000 double_17337_73 by simp
  from th small have "\<forall>x \<in> set ?s. emi x = calculateEMI sample_runtime (Fin 50000) (Fin 24) (Fin 3)"
    by blast
  then have m: "map emi ?s = replicate 3 (calculateEMI sample_runtime (Fin 50000) (Fin 24) (Fin 3))"
    by (simp add: numeral_3_eq_3)
  have a: "js_le (Fin 1) (Fin 3)" by (simp add: js_le_def)
  have b: "\<bar>4765758933560197 / 2 ^ 38 :: real\<bar> \<le> 10 ^ 13" by simp
  show ?thesis
    by (intro conjI sample_schedule sample_emi_50000 double_17337_73 a b m)
qed

section \<open>Determinism of the schedule\<close>

text \<open>
  Claim C7. The loop of \<open>generateAmortizationSchedule\<close>, read as a relation between its
  local state and the array it returns, is deterministic: two runs on the same principal,
  rate and term return the same entries in the same order, the periods being
  \<open>1, 2, \<dots>\<close> up to the number of turns. The relation holds exactly when the function
  returns that array. Nothing but the three arguments is read: two engines with the same
  \<open>Math.pow\<close> return the same entries whenever both return, whatever their heaps.
\<close>

theorem schedule_deterministic:
  "(generates rt p r t s1 \<longrightarrow> generates rt p r t s2 \<longrightarrow>
      s1 = s2 \<and> map month s1 = map (\<lambda>k. Fin (real k)) [1 ..< 1 + turns t])
   \<and> (generates rt p r t s = (generateAmortizationSchedule rt p r t = Some s))
   \<and> (powApprox rt' = powApprox rt \<longrightarrow> generates rt p r t s1 \<longrightarrow> generates rt' p r t s2 \<longrightarrow>
        s1 = s2)"
proof (intro conjI impI)
  have eq: "generates rt p r t s = (generateAmortizationSchedule rt p r t = Some s)" for rt s
    unfolding generates_def generateAmortizationSchedule_def
    using run_imp_loop[of rt t "monthlyRate_of r" "calculateEMI rt p r t" "(Fin 1, p, [])" s]
      loop_imp_run[of rt t "monthlyRate_of r" "calculateEMI rt p r t" "Fin 1" p "[]" s]
    by auto
  show "generates rt p r t s = (generateAmortizationSchedule rt p r t = Some s)" by (rule eq)
  have steps: "turns t \<le> capacity rt
                 \<and> s = schedule_steps (turns t) (monthlyRate_of r) (calculateEMI rt p r t) (Fin 1) p"
    if "generates rt p r t s" for rt s
    using that unfolding eq by (simp add: generate_steps split: if_splits)
  show "s1 = s2" if "generates rt p r t s1" "generates rt p r t s2"
    using that schedule_run_deterministic unfolding generates_def by blast
  show "map month s1 = map (\<lambda>k. Fin (real k)) [1 ..< 1 + turns t]"
    if g: "generates rt p r t s1" "generates rt p r t s2"
  proof -
    have "1 + turns t \<le> 2 ^ 53" using steps[OF g(1)] capacity_le[of rt] by linarith
    then have "map month (schedule_steps (turns t) (monthlyRate_of r) (calculateEMI rt p r t)
                 (Fin (real 1)) p) = map (\<lambda>k. Fin (real k)) [1 ..< 1 + turns t]"
      by (rule schedule_steps_months)
    then show ?thesis using steps[OF g(1)] by simp
  qed
  show "s1 = s2"
    if "powApprox rt' = powApprox rt" "generates rt p r t s1" "generates rt' p r t s2"
    using steps[OF that(2)] steps[OF that(3)] calculateEMI_cong[OF that(1)] by simp
qed

theorem schedule_deterministic_witness:
  "generates sample_runtime (Fin 50000) (Fin 24) (Fin 3)
     [\<lparr>month = Fin 1, emi = fl 17337.73, principalPaid = fl 16337.73,
        interestPaid = Fin 1000, balance = fl 33662.27\<rparr>,
      \<lparr>month = Fin 2, emi = fl 17337.73, principalPaid = fl 16664.48,
        interestPaid = fl 673.25, balance = fl 16997.79\<rparr>,
      \<lparr>month = Fin 3, emi = fl 17337.73, principalPaid = fl 16997.77,
        interestPaid = fl 339.96, balance = fl 0.01\<rparr>]
   \<and> generates (sample_runtime\<lparr>heapEntries := 5\<rparr>) (Fin 50000) (Fin 24) (Fin 3)
     [\<lparr>month = Fin 1, emi = fl 17337.73, principalPaid = fl 16337.73,
        interestPaid = Fin 1000, balance = fl 33662.27\<rparr>,
      \<lparr>month = Fin 2, emi = fl 17337.73, principalPaid = fl 16664.48,
        interestPaid = fl 673.25, balance = fl 16997.79\<rparr>,
      \<lparr>month = Fin 3, emi = fl 17337.73, principalPaid = fl 16997.77,
        interestPaid = fl 339.96, balance = fl 0.01\<rparr>]
   \<and> powApprox (sample_runtime\<lparr>heapEntries := 5\<rparr>) = powApprox sample_runtime
   \<and> map month
     [\<lparr>month = Fin 1, emi = fl 17337.73, principalPaid = fl 16337.73,
        interestPaid = Fin 1000, balance = fl 33662.27\<rparr>,
      \<lparr>month = Fin 2, emi = fl 17337.73, principalPaid = fl 16664.48,
        interestPaid = fl 673.25, balance = fl 16997.79\<rparr>,
      \<lparr>month = Fin 3, emi = fl 17337.73, principalPaid = fl 16997.77,
        interestPaid = fl 339.96, balance = fl 0.01\<rparr>]
     = [Fin 1, Fin 2, Fin 3]"
proof -
  let ?s = "[\<lparr>month = Fin 1, emi = fl 17337.73, principalPaid = fl 16337.73,
        interestPaid = Fin 1000, balance = fl 33662.27\<rparr>,
      \<lparr>month = Fin 2, emi = fl 17337.73, principalPaid = fl 16664.48,
        interestPaid = fl 673.25, balance = fl 16997.79\<rparr>,
      \<lparr>month = Fin 3, emi = fl 17337.73, principalPaid = fl 16997.77,
        interestPaid = fl 339.96, balance = fl 0.01\<rparr>]"
  let ?rt = "sample_runtime\<lparr>heapEntries := 5\<rparr>"
  have pw: "powApprox ?rt = powApprox sample_runtime" by simp
  have g: "generates sample_runtime (Fin 50000) (Fin 24) (Fin 3) ?s"
    using schedule_deterministic[of sample_runtime "Fin 50000" "Fin 24" "Fin 3" ?s ?s ?s ?rt]
      sample_schedule by blast
  have cap: "turns (Fin 3) \<le> capacity ?rt" "turns (Fin 3) \<le> capacity sample_runtime"
    by (simp_all add: capacity_def sample_runtime_def)
  have "generateAmortizationSchedule ?rt (Fin 50000) (Fin 24) (Fin 3)
          = generateAmortizationSchedule sample_runtime (Fin 50000) (Fin 24) (Fin 3)"
    unfolding generate_steps using cap
    by (simp add: calculateEMI_cong[OF pw] del: schedule_steps.simps)
  then have g': "generates ?rt (Fin 50000) (Fin 24) (Fin 3) ?s"
    using schedule_deterministic[of ?rt "Fin 50000" "Fin 24" "Fin 3" ?s ?s ?s sample_runtime]
      sample_schedule by simp
  have "map month ?s = map (\<lambda>k. Fin (real k)) [1 ..< 1 + turns (Fin 3)]"
    using schedule_deterministic[of sample_runtime "Fin 50000" "Fin 24" "Fin 3" ?s ?s ?s ?rt] g
    by blast
  then show ?thesis using g g' pw by (simp add: upt_rec)
qed

section \<open>The EMI formula\<close>



section \<open>The rules of the validator\<close>

lemma bind_exn_Inr [simp]: "bind_exn (Inr v) f = f v"
  by (simp add: bind_exn_def)

lemma bind_exn_Inl [simp]: "bind_exn (Inl e) f = Inl e"
  by (simp add: bind_exn_def)

lemma get_prop_Inr: "d \<noteq> Undefined \<Longrightarrow> d \<noteq> Null \<Longrightarrow> \<exists>v. get_prop rt d p = Inr v"
  by (cases d) simp_all

lemma check_required_find:
  assumes "d \<noteq> Undefined" and "d \<noteq> Null"
  shows "check_required rt d names =
     Inr (map_option
            (\<lambda>p. invalid_result (missingParameters (errorCodes config))
                    (''Missing required parameter: '' @ p))
            (find (missing rt d) names))"
proof (induction names)
  case Nil
  show ?case by simp
next
  case (Cons p ps)
  obtain v where v: "get_prop rt d p = Inr v" using get_prop_Inr[OF assms] by blast
  show ?case using Cons v by (simp add: missing_def invalid_result_def)
qed

lemma validate_first_failure: "validateLoanRequest rt d = first_failure (rules_in_order rt d)"
proof (cases "d = Undefined \<or> d = Null")
  case True
  then show ?thesis
    by (auto simp add: validateLoanRequest_def rules_in_order_def required_rule_def
        requiredFields_def)
next
  case False
  then have nn: "d \<noteq> Undefined" "d \<noteq> Null" by auto
  have g: "\<exists>v. get_prop rt d p = Inr v" for p using get_prop_Inr[OF nn] by blast
  obtain a where a: "get_prop rt d ''orderId'' = Inr a" using g by blast
  obtain b where b: "get_prop rt d ''transactionId'' = Inr b" using g by blast
  obtain c where c: "get_prop rt d ''loanAmount'' = Inr c" using g by blast
  obtain t where t: "get_prop rt d ''tenure'' = Inr t" using g by blast
  obtain r where r: "get_prop rt d ''roi'' = Inr r" using g by blast
  obtain w where w: "get_prop rt d ''downpayment'' = Inr w" using g by blast
  show ?thesis
    unfolding validateLoanRequest_def rules_in_order_def required_rule_def format_rule_def
      range_rule_def downpayment_rule_def rule_of_def check_required_find[OF nn]
    by (cases "find (missing rt d) requiredFields"; cases "regex_test rt (orderIdRegex (validation config)) a";
        cases "regex_test rt (transactionIdRegex (validation config)) b")
       (simp_all add: a b c t r w)
qed


lemma first_failure_Fail:
  "first_failure rules = Inr r \<Longrightarrow> \<not> isValid r \<Longrightarrow> Fail r \<in> set rules"
proof (induction rules)
  case Nil
  then show ?case by auto
next
  case (Cons x rules)
  then show ?case by (cases x) auto
qed

lemma rule_of_Fail: "rule_of x r0 = Fail r \<Longrightarrow> r = r0"
  by (auto simp add: rule_of_def split: sum.splits if_splits)

lemma required_rule_Fail:
  assumes "required_rule rt d = Fail r"
  shows "\<exists>p \<in> set requiredFields.
           r = invalid_result (missingParameters (errorCodes config))
                 (''Missing required parameter: '' @ p)"
proof -
  obtain p where p: "find (missing rt d) requiredFields = Some p"
      and r: "r = invalid_result (missingParameters (errorCodes config))
                 (''Missing required parameter: '' @ p)"
    using assms by (auto simp add: required_rule_def split: sum.splits option.splits)
  from p have "p \<in> set requiredFields"
    by (auto simp add: find_Some_iff)
  with r show ?thesis by blast
qed

lemma find_missing_Obj:
  "find (missing rt (Obj kvs)) names
     = find (\<lambda>p. own_prop kvs p = Undefined \<or> own_prop kvs p = Null) names"
proof -
  have "missing rt (Obj kvs) = (\<lambda>p. own_prop kvs p = Undefined \<or> own_prop kvs p = Null)"
    by (rule ext) (simp add: missing_def)
  then show ?thesis by simp
qed

section \<open>The error codes of the validator\<close>

lemma out_of_range_outside: "out_of_range v (Fin lo) (Fin hi) = outside lo hi v"
  by (cases "(lo, hi, v)" rule: outside.cases) (simp_all add: js_gt_def)

lemma not_nonneg_number_not_nonnegative: "not_nonneg_number v = not_nonnegative v"
  by (cases v rule: not_nonnegative.cases) simp_all

lemma validate_present:
  assumes "list_all (present kvs) requiredFields"
    and "own_prop kvs ''orderId'' = Str oid" and "own_prop kvs ''transactionId'' = Str tid"
  shows "validateLoanRequest rt (Obj kvs)
     = Inr (if \<not> prefix_digits ''ORD'' 6 10 oid
            then \<lparr>isValid = False, errorCode = Some ''E002'',
                  message = ''Order ID format is invalid''\<rparr>
            else if \<not> prefix_digits ''TXN'' 4 12 tid
            then \<lparr>isValid = False, errorCode = Some ''E002'',
                  message = ''Transaction ID format is invalid''\<rparr>
            else if outside 10000 10000000 (own_prop kvs ''loanAmount'')
            then \<lparr>isValid = False, errorCode = Some ''E003'',
                  message = ''Loan amount must be between 10000 and 10000000''\<rparr>
            else if outside 3 84 (own_prop kvs ''tenure'')
            then \<lparr>isValid = False, errorCode = Some ''E004'',
                  message = ''Tenure must be between 3 and 84 months''\<rparr>
            else if outside 5.5 24 (own_prop kvs ''roi'')
            then \<lparr>isValid = False, errorCode = Some ''E002'',
                  message = ''ROI must be between 5.5% and 24%''\<rparr>
            else if not_nonnegative (own_prop kvs ''downpayment'')
            then \<lparr>isValid = False, errorCode = Some ''E002'',
                  message = ''Downpayment must be a non-negative number''\<rparr>
            else \<lparr>isValid = True, errorCode = None, message = []\<rparr>)"
proof -
  have "find (\<lambda>p. own_prop kvs p = Undefined \<or> own_prop kvs p = Null) requiredFields = None"
    using assms(1) by (auto simp add: find_None_iff list_all_iff present_def)
  then show ?thesis
    using assms(2,3)
    by (simp add: validate_first_failure rules_in_order_def required_rule_def find_missing_Obj
        format_rule_def range_rule_def downpayment_rule_def rule_of_def regex_test_def
        invalid_result_def config_def out_of_range_outside not_nonneg_number_not_nonnegative)
qed

lemma validate_missing:
  assumes "f \<in> set requiredFields" and "\<not> present kvs f"
  shows "\<exists>g \<in> set requiredFields. \<not> present kvs g
           \<and> validateLoanRequest rt (Obj kvs)
               = Inr \<lparr>isValid = False, errorCode = Some ''E002'',
                      message = ''Missing required parameter: '' @ g\<rparr>"
proof -
  let ?m = "\<lambda>p. own_prop kvs p = Undefined \<or> own_prop kvs p = Null"
  from assms have "find ?m requiredFields \<noteq> None"
    by (auto simp add: find_None_iff present_def)
  then obtain g where g: "find ?m requiredFields = Some g" by auto
  then have gg: "g \<in> set requiredFields" "\<not> present kvs g"
    by (auto simp add: find_Some_iff present_def)
  have "validateLoanRequest rt (Obj kvs)
          = Inr \<lparr>isValid = False, errorCode = Some ''E002'',
                 message = ''Missing required parameter: '' @ g\<rparr>"
    by (simp add: validate_first_failure rules_in_order_def required_rule_def find_missing_Obj g
        invalid_result_def config_def)
  with gg show ?thesis by blast
qed

lemma validate_codes:
  assumes "validateLoanRequest rt d = Inr r" and "\<not> isValid r"
  shows "(errorCode r = Some ''E003''
            \<and> message r = ''Loan amount must be between 10000 and 10000000'')
       \<or> (errorCode r = Some ''E004''
            \<and> message r = ''Tenure must be between 3 and 84 months'')
       \<or> (errorCode r = Some ''E002''
            \<and> (message r = ''Order ID format is invalid''
               \<or> message r = ''Transaction ID format is invalid''
               \<or> message r = ''ROI must be between 5.5% and 24%''
               \<or> message r = ''Downpayment must be a non-negative number''
               \<or> (\<exists>p \<in> set requiredFields. message r = ''Missing required parameter: '' @ p)))"
proof -
  have "Fail r \<in> set (rules_in_order rt d)"
    using assms first_failure_Fail by (simp add: validate_first_failure)
  then consider "required_rule rt d = Fail r"
    | "r = invalid_result (missingParameters (errorCodes config)) ''Order ID format is invalid''"
    | "r = invalid_result (missingParameters (errorCodes config))
             ''Transaction ID format is invalid''"
    | "r = invalid_result (invalidLoanAmount (errorCodes config))
             ''Loan amount must be between 10000 and 10000000''"
    | "r = invalid_result (invalidTenure (errorCodes config))
             ''Tenure must be between 3 and 84 months''"
    | "r = invalid_result (missingParameters (errorCodes config))
             ''ROI must be between 5.5% and 24%''"
    | "r = invalid_result (missingParameters (errorCodes config))
             ''Downpayment must be a non-negative number''"
    unfolding rules_in_order_def format_rule_def range_rule_def downpayment_rule_def
    using rule_of_Fail by (auto simp del: bind_exn_Inr bind_exn_Inl)
  then show ?thesis
  proof cases
    case 1
    then show ?thesis using required_rule_Fail[OF 1] by (auto simp add: invalid_result_def config_def)
  qed (simp_all add: invalid_result_def config_def)
qed

lemmas sample_eval = validateLoanRequest_def loan_request_def requiredFields_def own_prop_def
  regex_test_def config_def prefix_digits_def is_digit_def invalid_result_def

lemma sample_ord123:
  "validateLoanRequest sample_runtime
     (loan_request (Str ''ORD123'') (Str ''TXN1234'') (Num (Fin 50000)) (Num (Fin 12))
        (Num (Fin 12)) (Num (Fin 0)))
   = Inr \<lparr>isValid = False, errorCode = Some (missingParameters (errorCodes config)),
          message = ''Order ID format is invalid''\<rparr>"
  by (simp add: sample_eval)

lemma sample_roi30:
  "validateLoanRequest sample_runtime
     (loan_request (Str ''ORD123456'') (Str ''TXN1234'') (Num (Fin 50000)) (Num (Fin 30))
        (Num (Fin 12)) (Num (Fin 0)))
   = Inr \<lparr>isValid = False, errorCode = Some (missingParameters (errorCodes config)),
          message = ''ROI must be between 5.5% and 24%''\<rparr>"
  by (simp add: sample_eval js_gt_def)

text \<open>
  Claim C2 says that each rule has a code of its own category, that the order identifier
  \<open>ORD123\<close> gets an invalid-format code distinct from the missing-parameter code, and
  that a rate out of range gets an invalid-rate code. Both get the missing-parameter code.
\<close>

theorem format_and_rate_code_counterexample:
  "validateLoanRequest sample_runtime
     (loan_request (Str ''ORD123'') (Str ''TXN1234'') (Num (Fin 50000)) (Num (Fin 12))
        (Num (Fin 12)) (Num (Fin 0)))
   = Inr \<lparr>isValid = False, errorCode = Some (missingParameters (errorCodes config)),
          message = ''Order ID format is invalid''\<rparr>
   \<and> validateLoanRequest sample_runtime
     (loan_request (Str ''ORD123456'') (Str ''TXN1234'') (Num (Fin 50000)) (Num (Fin 30))
        (Num (Fin 12)) (Num (Fin 0)))
   = Inr \<lparr>isValid = False, errorCode = Some (missingParameters (errorCodes config)),
          message = ''ROI must be between 5.5% and 24%''\<rparr>"
  using sample_ord123 sample_roi30 by simp

text \<open>
  Claim C2 as amended. The validator has three codes for its failures. When every
  required field is present and the order and transaction identifiers are strings, the
  answer is that of the first check that fails, in this order: an order identifier that
  does not match gets \<open>E002\<close> (missingParameters); a transaction identifier that does
  not match gets \<open>E002\<close>; a loan amount that is not a number, or is below 10000 or above
  10000000, gets \<open>E003\<close> (invalidLoanAmount); a tenure that is not a number, or is below
  3 or above 84, gets \<open>E004\<close> (invalidTenure); a rate that is not a number, or is below
  5.5 or above 24, gets \<open>E002\<close>; a downpayment that is not a number or is negative gets
  \<open>E002\<close>; otherwise the request is valid. A missing required field gets \<open>E002\<close>.
  No failure has any other code or message. The configuration has no code for an invalid
  format or an invalid rate.
\<close>

theorem validation_codes:
  "(list_all (present kvs) requiredFields \<longrightarrow>
      own_prop kvs ''orderId'' = Str oid \<longrightarrow> own_prop kvs ''transactionId'' = Str tid \<longrightarrow>
      validateLoanRequest rt (Obj kvs)
        = Inr (if \<not> prefix_digits ''ORD'' 6 10 oid
               then \<lparr>isValid = False, errorCode = Some ''E002'',
                     message = ''Order ID format is invalid''\<rparr>
               else if \<not> prefix_digits ''TXN'' 4 12 tid
               then \<lparr>isValid = False, errorCode = Some ''E002'',
                     message = ''Transaction ID format is invalid''\<rparr>
               else if outside 10000 10000000 (own_prop kvs ''loanAmount'')
               then \<lparr>isValid = False, errorCode = Some ''E003'',
                     message = ''Loan amount must be between 10000 and 10000000''\<rparr>
               else if outside 3 84 (own_prop kvs ''tenure'')
               then \<lparr>isValid = False, errorCode = Some ''E004'',
                     message = ''Tenure must be between 3 and 84 months''\<rparr>
               else if outside 5.5 24 (own_prop kvs ''roi'')
               then \<lparr>isValid = False, errorCode = Some ''E002'',
                     message = ''ROI must be between 5.5% and 24%''\<rparr>
               else if not_nonnegative (own_prop kvs ''downpayment'')
               then \<lparr>isValid = False, errorCode = Some ''E002'',
                     message = ''Downpayment must be a non-negative number''\<rparr>
               else \<lparr>isValid = True, errorCode = None, message = []\<rparr>))
   \<and> (f \<in> set requiredFields \<longrightarrow> \<not> present kvs' f \<longrightarrow>
        (\<exists>g \<in> set requiredFields. \<not> present kvs' g
           \<and> validateLoanRequest rt (Obj kvs')
               = Inr \<lparr>isValid = False, errorCode = Some ''E002'',
                      message = ''Missing required parameter: '' @ g\<rparr>))
   \<and> (validateLoanRequest rt d = Inr r \<longrightarrow> \<not> isValid r \<longrightarrow>
        (errorCode r = Some ''E003''
            \<and> message r = ''Loan amount must be between 10000 and 10000000'')
       \<or> (errorCode r = Some ''E004''
            \<and> message r = ''Tenure must be between 3 and 84 months'')
       \<or> (errorCode r = Some ''E002''
            \<and> (message r = ''Order ID format is invalid''
               \<or> message r = ''Transaction ID format is invalid''
               \<or> message r = ''ROI must be between 5.5% and 24%''
               \<or> message r = ''Downpayment must be a non-negative number''
               \<or> (\<exists>p \<in> set requiredFields.
                     message r = ''Missing required parameter: '' @ p))))"
  using validate_present[of kvs oid tid rt] validate_missing[of f kvs' rt]
    validate_codes[of rt d r]
  by blast

theorem validation_codes_witness:
  "list_all
     (present [(''orderId'', Str ''ORD123456''), (''transactionId'', Str ''TXN1234''),
          (''loanAmount'', Num (Fin 5000)), (''roi'', Num (Fin 30)), (''tenure'', Num (Fin 12)),
          (''downpayment'', Num (Fin 0)), (''processingFee'', Num (Fin 500)),
          (''tvsTransactionId'', Str ''TVS0001'')])
     requiredFields
   \<and> validateLoanRequest sample_runtime
        (Obj [(''orderId'', Str ''ORD123456''), (''transactionId'', Str ''TXN1234''),
          (''loanAmount'', Num (Fin 5000)), (''roi'', Num (Fin 30)), (''tenure'', Num (Fin 12)),
          (''downpayment'', Num (Fin 0)), (''processingFee'', Num (Fin 500)),
          (''tvsTransactionId'', Str ''TVS0001'')])
       = Inr \<lparr>isValid = False, errorCode = Some ''E003'',
              message = ''Loan amount must be between 10000 and 10000000''\<rparr>
   \<and> validateLoanRequest sample_runtime
        (Obj [(''orderId'', Str ''ORD123456''), (''transactionId'', Str ''TXN1234''),
          (''loanAmount'', Num (Fin 50000)), (''roi'', Num (Fin 30)), (''tenure'', Num (Fin 12)),
          (''downpayment'', Num (Fin 0)), (''processingFee'', Num (Fin 500)),
          (''tvsTransactionId'', Str ''TVS0001'')])
       = Inr \<lparr>isValid = False, errorCode = Some ''E002'',
              message = ''ROI must be between 5.5% and 24%''\<rparr>
   \<and> ''roi'' \<in> set requiredFields
   \<and> \<not> present [(''orderId'', Str ''ORD123456''), (''loanAmount'', Num (Fin 5000))] ''roi''
   \<and> validateLoanRequest sample_runtime
        (Obj [(''orderId'', Str ''ORD123456''), (''loanAmount'', Num (Fin 5000))])
       = Inr \<lparr>isValid = False, errorCode = Some ''E002'',
              message = ''Missing required parameter: transactionId''\<rparr>"
proof -
  let ?low = "[(''orderId'', Str ''ORD123456''), (''transactionId'', Str ''TXN1234''),
          (''loanAmount'', Num (Fin 5000)), (''roi'', Num (Fin 30)), (''tenure'', Num (Fin 12)),
          (''downpayment'', Num (Fin 0)), (''processingFee'', Num (Fin 500)),
          (''tvsTransactionId'', Str ''TVS0001'')]"
  let ?roi = "[(''orderId'', Str ''ORD123456''), (''transactionId'', Str ''TXN1234''),
          (''loanAmount'', Num (Fin 50000)), (''roi'', Num (Fin 30)), (''tenure'', Num (Fin 12)),
          (''downpayment'', Num (Fin 0)), (''processingFee'', Num (Fin 500)),
          (''tvsTransactionId'', Str ''TVS0001'')]"
  let ?few = "[(''orderId'', Str ''ORD123456''), (''loanAmount'', Num (Fin 5000))]"
  have p: "list_all (present ?low) requiredFields" "list_all (present ?roi) requiredFields"
    by (simp_all add: present_def requiredFields_def own_prop_def)
  have m: "''roi'' \<in> set requiredFields" "\<not> present ?few ''roi''"
    by (simp_all add: present_def requiredFields_def own_prop_def)
  have 1: "validateLoanRequest sample_runtime (Obj ?low)
       = Inr \<lparr>isValid = False, errorCode = Some ''E003'',
              message = ''Loan amount must be between 10000 and 10000000''\<rparr>"
    using validation_codes[of ?low "''ORD123456''" "''TXN1234''" sample_runtime "''roi''" ?few
        "Obj ?low"] p(1)
    by (simp add: own_prop_def prefix_digits_def is_digit_def)
  have 2: "validateLoanRequest sample_runtime (Obj ?roi)
       = Inr \<lparr>isValid = False, errorCode = Some ''E002'',
              message = ''ROI must be between 5.5% and 24%''\<rparr>"
    using validation_codes[of ?roi "''ORD123456''" "''TXN1234''" sample_runtime "''roi''" ?few
        "Obj ?roi"] p(2)
    by (simp add: own_prop_def prefix_digits_def is_digit_def)
  obtain g where g: "g \<in> set requiredFields" "\<not> present ?few g"
      "validateLoanRequest sample_runtime (Obj ?few)
         = Inr \<lparr>isValid = False, errorCode = Some ''E002'',
                message = ''Missing required parameter: '' @ g\<rparr>"
    using validation_codes[of ?low "''ORD123456''" "''TXN1234''" sample_runtime "''roi''" ?few
        "Obj ?low"] m
    by blast
  have "validateLoanRequest sample_runtime (Obj ?few)
         = Inr \<lparr>isValid = False, errorCode = Some ''E002'',
                message = ''Missing required parameter: transactionId''\<rparr>"
    by (simp add: validate_first_failure rules_in_order_def required_rule_def missing_def
        requiredFields_def own_prop_def invalid_result_def config_def)
  then show ?thesis using p(1) 1 2 m by blast
qed

section \<open>The order of the checks\<close>

text \<open>
  Claim C3. \<open>validateLoanRequest\<close> answers as the first rule that does not pass, the
  rules being taken in the order: required fields, order identifier, transaction
  identifier, loan amount, tenure, rate, downpayment. When a required field of the request
  is \<open>undefined\<close> or \<open>null\<close>, the answer is the missing-parameter result naming
  such a field, whatever the formats and ranges of the other fields.
\<close>

theorem validation_order:
  "validateLoanRequest rt d = first_failure (rules_in_order rt d)
   \<and> (p \<in> set requiredFields \<longrightarrow> (own_prop kvs p = Undefined \<or> own_prop kvs p = Null) \<longrightarrow>
        (\<exists>q \<in> set requiredFields.
           (own_prop kvs q = Undefined \<or> own_prop kvs q = Null)
           \<and> validateLoanRequest rt (Obj kvs)
               = Inr \<lparr>isValid = False, errorCode = Some (missingParameters (errorCodes config)),
                      message = ''Missing required parameter: '' @ q\<rparr>))"
proof (intro conjI impI)
  show "validateLoanRequest rt d = first_failure (rules_in_order rt d)"
    by (rule validate_first_failure)
  assume p: "p \<in> set requiredFields" "own_prop kvs p = Undefined \<or> own_prop kvs p = Null"
  let ?m = "\<lambda>p. own_prop kvs p = Undefined \<or> own_prop kvs p = Null"
  from p have "find ?m requiredFields \<noteq> None" by (auto simp add: find_None_iff)
  then obtain q where q: "find ?m requiredFields = Some q" by auto
  then have qq: "q \<in> set requiredFields" "?m q" by (auto simp add: find_Some_iff)
  have "validateLoanRequest rt (Obj kvs)
          = Inr \<lparr>isValid = False, errorCode = Some (missingParameters (errorCodes config)),
                 message = ''Missing required parameter: '' @ q\<rparr>"
    by (simp add: validate_first_failure rules_in_order_def required_rule_def find_missing_Obj q
        invalid_result_def)
  with qq show "\<exists>q \<in> set requiredFields.
           (own_prop kvs q = Undefined \<or> own_prop kvs q = Null)
           \<and> validateLoanRequest rt (Obj kvs)
               = Inr \<lparr>isValid = False, errorCode = Some (missingParameters (errorCodes config)),
                      message = ''Missing required parameter: '' @ q\<rparr>"
    by blast
qed


theorem validation_order_witness:
  "''tenure'' \<in> set requiredFields
   \<and> own_prop [(''orderId'', Str ''bad''), (''loanAmount'', Num (Fin 5)), (''tenure'', Null)]
         ''orderId'' = Str ''bad''
   \<and> own_prop [(''orderId'', Str ''bad''), (''loanAmount'', Num (Fin 5)), (''tenure'', Null)]
         ''tenure'' = Null
   \<and> validateLoanRequest sample_runtime
        (Obj [(''orderId'', Str ''bad''), (''loanAmount'', Num (Fin 5)), (''tenure'', Null)])
       = Inr \<lparr>isValid = False, errorCode = Some ''E002'',
              message = ''Missing required parameter: transactionId''\<rparr>"
proof -
  let ?kvs = "[(''orderId'', Str ''bad''), (''loanAmount'', Num (Fin 5)), (''tenure'', Null)]"
  have "validateLoanRequest sample_runtime (Obj ?kvs)
          = first_failure (rules_in_order sample_runtime (Obj ?kvs))"
    using validation_order[of sample_runtime "Obj ?kvs" "''tenure''" ?kvs] by blast
  also have "\<dots> = Inr \<lparr>isValid = False, errorCode = Some ''E002'',
                         message = ''Missing required parameter: transactionId''\<rparr>"
    by (simp add: rules_in_order_def required_rule_def missing_def requiredFields_def
        own_prop_def invalid_result_def config_def)
  finally show ?thesis by (simp add: requiredFields_def own_prop_def)
qed

lemma validateToken_short:
  assumes "token = Undefined \<or> token = Null \<or> (\<exists>s. token = Str s \<and> length s < 32)"
  shows "\<exists>ok. validateToken rt token = Inr ok \<and> \<not> truthy ok"
  using assms by (auto simp add: validateToken_def js_ge_def js_le_def)

section \<open>The token comes first\<close>

text \<open>
  Claim C10. When the token of the request is absent (\<open>undefined\<close> or \<open>null\<close>) or
  is a string of fewer than 32 characters, \<open>processLoanOffer\<close> returns the
  authentication error with code E001, whatever the loan data are; the only call made is
  the one to \<open>validateToken\<close>, so \<open>validateLoanRequest\<close> is not consulted.
\<close>

theorem short_token_rejected:
  assumes "own_prop kvs ''token'' = Undefined \<or> own_prop kvs ''token'' = Null
           \<or> (\<exists>s. own_prop kvs ''token'' = Str s \<and> length s < 32)"
  shows "processLoanOffer rt (Obj kvs)
           = (authError ''Invalid or expired token'', [Call FnValidateToken])
       \<and> payload_errorCode (data (authError ''Invalid or expired token'')) = Some ''E001''"
proof -
  obtain ok where ok: "validateToken rt (own_prop kvs ''token'') = Inr ok" "\<not> truthy ok"
    using validateToken_short[OF assms] by blast
  then have "processLoanOffer rt (Obj kvs)
           = (authError ''Invalid or expired token'', [Call FnValidateToken])"
    by (simp add: processLoanOffer_def processLoanOffer_body_def)
  then show ?thesis by (simp add: authError_def errorResponse_def config_def)
qed

theorem short_token_rejected_witness:
  "own_prop [(''token'', Str ''secret''), (''data'', Null)] ''token'' = Str ''secret''
   \<and> length ''secret'' < 32
   \<and> processLoanOffer sample_runtime (Obj [(''token'', Str ''secret''), (''data'', Null)])
       = (authError ''Invalid or expired token'', [Call FnValidateToken])"
  using short_token_rejected[of "[(''token'', Str ''secret''), (''data'', Null)]" sample_runtime]
  by (simp add: own_prop_def)

lemma processLoanOffer_invalid:
  assumes "get_prop rt requestData ''token'' = Inr token"
    and "validateToken rt token = Inr ok" and "truthy ok"
    and "get_prop rt requestData ''data'' = Inr d"
    and "validateLoanRequest rt d = Inr v" and "\<not> isValid v"
  shows "processLoanOffer rt requestData
           = (errorResponse (errorCode v) (message v),
              [Call FnValidateToken, Call FnValidateLoanRequest])"
  using assms by (simp add: processLoanOffer_def processLoanOffer_body_def)

lemma processLoanOffer_throws:
  assumes "get_prop rt requestData ''token'' = Inr token"
    and "validateToken rt token = Inr ok" and "truthy ok"
    and "get_prop rt requestData ''data'' = Inr d"
    and "validateLoanRequest rt d = Inl e"
  shows "processLoanOffer rt requestData
           = (serverError rt e,
              [Call FnValidateToken, Call FnValidateLoanRequest, ConsoleError])"
  using assms by (simp add: processLoanOffer_def processLoanOffer_body_def)

lemma processLoanOffer_calls:
  "Call FnCalculateEMI \<notin> set (snd (processLoanOffer rt requestData))
   \<and> Call FnGenerateAmortizationSchedule \<notin> set (snd (processLoanOffer rt requestData))"
  by (auto simp add: processLoanOffer_def processLoanOffer_body_def
      split: sum.splits prod.splits if_splits)

lemma low_amount:
  assumes present: "list_all (\<lambda>p. own_prop kvs p \<noteq> Undefined \<and> own_prop kvs p \<noteq> Null) requiredFields"
    and oid: "own_prop kvs ''orderId'' = Str oid" "orderIdRegex (validation config) oid"
    and tid: "own_prop kvs ''transactionId'' = Str tid" "transactionIdRegex (validation config) tid"
    and amt: "own_prop kvs ''loanAmount'' = Num a" "js_lt a (minAmount (loan config))"
  shows "validateLoanRequest rt (Obj kvs)
           = Inr \<lparr>isValid = False, errorCode = Some (invalidLoanAmount (errorCodes config)),
                  message = ''Loan amount must be between 10000 and 10000000''\<rparr>"
proof -
  have "find (\<lambda>p. own_prop kvs p = Undefined \<or> own_prop kvs p = Null) requiredFields = None"
    using present by (auto simp add: find_None_iff list_all_iff)
  then show ?thesis
    using oid tid amt
    by (simp add: validate_first_failure rules_in_order_def required_rule_def find_missing_Obj
        format_rule_def range_rule_def rule_of_def regex_test_def invalid_result_def)
qed


section \<open>Rejections\<close>

text \<open>
  Claim C8 as amended. For an authenticated request, a failure of the validator is returned
  as the error response carrying exactly the validator's code and message. When all the
  required fields are present, the order and transaction identifiers are well-formed
  strings and the loan amount is a number below the configured minimum, the code is
  \<open>invalidLoanAmount\<close> and the message is the loan-amount message. No call of
  \<open>calculateEMI\<close> or \<open>generateAmortizationSchedule\<close> is ever made by
  \<open>processLoanOffer\<close>.
\<close>

theorem rejection_carries_validator_result:
  assumes "get_prop rt requestData ''token'' = Inr token"
    and "validateToken rt token = Inr ok" and "truthy ok"
    and "get_prop rt requestData ''data'' = Inr d"
  shows "(validateLoanRequest rt d = Inr v \<longrightarrow> \<not> isValid v \<longrightarrow>
            processLoanOffer rt requestData
              = (errorResponse (errorCode v) (message v),
                 [Call FnValidateToken, Call FnValidateLoanRequest]))
       \<and> (d = Obj kvs \<longrightarrow> list_all (present kvs) requiredFields \<longrightarrow>
            own_prop kvs ''orderId'' = Str oid \<longrightarrow> orderIdRegex (validation config) oid \<longrightarrow>
            own_prop kvs ''transactionId'' = Str tid \<longrightarrow>
            transactionIdRegex (validation config) tid \<longrightarrow>
            own_prop kvs ''loanAmount'' = Num a \<longrightarrow> js_lt a (minAmount (loan config)) \<longrightarrow>
            processLoanOffer rt requestData
              = (errorResponse (Some (invalidLoanAmount (errorCodes config)))
                   ''Loan amount must be between 10000 and 10000000'',
                 [Call FnValidateToken, Call FnValidateLoanRequest]))
       \<and> Call FnCalculateEMI \<notin> set (snd (processLoanOffer rt requestData))
       \<and> Call FnGenerateAmortizationSchedule \<notin> set (snd (processLoanOffer rt requestData))"
proof (intro conjI impI)
  show "processLoanOffer rt requestData
              = (errorResponse (errorCode v) (message v),
                 [Call FnValidateToken, Call FnValidateLoanRequest])"
    if "validateLoanRequest rt d = Inr v" "\<not> isValid v"
    using processLoanOffer_invalid[OF assms that] .
  show "processLoanOffer rt requestData
              = (errorResponse (Some (invalidLoanAmount (errorCodes config)))
                   ''Loan amount must be between 10000 and 10000000'',
                 [Call FnValidateToken, Call FnValidateLoanRequest])"
    if h: "d = Obj kvs" "list_all (present kvs) requiredFields"
      "own_prop kvs ''orderId'' = Str oid" "orderIdRegex (validation config) oid"
      "own_prop kvs ''transactionId'' = Str tid" "transactionIdRegex (validation config) tid"
      "own_prop kvs ''loanAmount'' = Num a" "js_lt a (minAmount (loan config))"
  proof -
    have pr: "list_all (\<lambda>p. own_prop kvs p \<noteq> Undefined \<and> own_prop kvs p \<noteq> Null) requiredFields"
      using h(2) by (simp add: present_def list_all_iff)
    have "validateLoanRequest rt d
           = Inr \<lparr>isValid = False, errorCode = Some (invalidLoanAmount (errorCodes config)),
                  message = ''Loan amount must be between 10000 and 10000000''\<rparr>"
      using low_amount[OF pr h(3-8)] h(1) by simp
    from processLoanOffer_invalid[OF assms this] show ?thesis by simp
  qed
  show "Call FnCalculateEMI \<notin> set (snd (processLoanOffer rt requestData))"
    using processLoanOffer_calls by blast
  show "Call FnGenerateAmortizationSchedule \<notin> set (snd (processLoanOffer rt requestData))"
    using processLoanOffer_calls by blast
qed

lemma sample_token_ok: "validateToken rt (Str sample_token) = Inr (Bool True)"
  by (simp add: validateToken_def sample_token_def js_ge_def js_le_def)

theorem rejection_carries_validator_result_witness:
  "get_prop sample_runtime
      (Obj [(''token'', Str sample_token),
            (''data'', loan_request (Str ''ORD123456'') (Str ''TXN1234'') (Num (Fin 5000))
                         (Num (Fin 12)) (Num (Fin 12)) (Num (Fin 0)))]) ''token''
     = Inr (Str sample_token)
   \<and> validateToken sample_runtime (Str sample_token) = Inr (Bool True)
   \<and> truthy (Bool True)
   \<and> js_lt (Fin 5000) (minAmount (loan config))
   \<and> processLoanOffer sample_runtime
        (Obj [(''token'', Str sample_token),
              (''data'', loan_request (Str ''ORD123456'') (Str ''TXN1234'') (Num (Fin 5000))
                           (Num (Fin 12)) (Num (Fin 12)) (Num (Fin 0)))])
       = (errorResponse (Some ''E003'') ''Loan amount must be between 10000 and 10000000'',
          [Call FnValidateToken, Call FnValidateLoanRequest])"
proof -
  let ?kvs = "[(''orderId'', Str ''ORD123456''), (''transactionId'', Str ''TXN1234''),
          (''loanAmount'', Num (Fin 5000)), (''roi'', Num (Fin 12)), (''tenure'', Num (Fin 12)),
          (''downpayment'', Num (Fin 0)), (''processingFee'', Num (Fin 500)),
          (''tvsTransactionId'', Str ''TVS0001'')]"
  let ?req = "Obj [(''token'', Str sample_token), (''data'', Obj ?kvs)]"
  have t: "get_prop sample_runtime ?req ''token'' = Inr (Str sample_token)"
    by (simp add: own_prop_def)
  have d: "get_prop sample_runtime ?req ''data'' = Inr (Obj ?kvs)"
    by (simp add: own_prop_def)
  have p: "list_all (present ?kvs) requiredFields"
    by (simp add: present_def requiredFields_def own_prop_def)
  have o: "own_prop ?kvs ''orderId'' = Str ''ORD123456''"
    "own_prop ?kvs ''transactionId'' = Str ''TXN1234''"
    "own_prop ?kvs ''loanAmount'' = Num (Fin 5000)"
    by (simp_all add: own_prop_def)
  have re: "orderIdRegex (validation config) ''ORD123456''"
    "transactionIdRegex (validation config) ''TXN1234''"
    by (simp_all add: config_def prefix_digits_def is_digit_def)
  have lt: "js_lt (Fin 5000) (minAmount (loan config))" by (simp add: config_def)
  have "processLoanOffer sample_runtime ?req
          = (errorResponse (Some (invalidLoanAmount (errorCodes config)))
               ''Loan amount must be between 10000 and 10000000'',
             [Call FnValidateToken, Call FnValidateLoanRequest])"
    using rejection_carries_validator_result[OF t sample_token_ok _ d,
        where kvs = ?kvs and oid = "''ORD123456''" and tid = "''TXN1234''" and a = "Fin 5000"]
      p o re lt
    by simp
  then show ?thesis using t lt sample_token_ok[of sample_runtime]
    by (simp add: loan_request_def config_def)
qed

text \<open>
  Claim C8 says that every authenticated request with a loan amount below the minimum is
  rejected with the invalid-amount code. A request whose order identifier is malformed as
  well is rejected for the identifier, which is checked first.
\<close>

theorem first_failure_wins_counterexample:
  "processLoanOffer sample_runtime
     (Obj [(''token'', Str sample_token),
           (''data'', loan_request (Str ''ORD123'') (Str ''TXN1234'') (Num (Fin 5000))
                        (Num (Fin 12)) (Num (Fin 12)) (Num (Fin 0)))])
     = (errorResponse (Some (missingParameters (errorCodes config)))
          ''Order ID format is invalid'',
        [Call FnValidateToken, Call FnValidateLoanRequest])
   \<and> missingParameters (errorCodes config) \<noteq> invalidLoanAmount (errorCodes config)
   \<and> js_lt (Fin 5000) (minAmount (loan config))"
proof -
  have "validateLoanRequest sample_runtime
     (loan_request (Str ''ORD123'') (Str ''TXN1234'') (Num (Fin 5000)) (Num (Fin 12))
        (Num (Fin 12)) (Num (Fin 0)))
   = Inr \<lparr>isValid = False, errorCode = Some (missingParameters (errorCodes config)),
          message = ''Order ID format is invalid''\<rparr>"
    by (simp add: sample_eval)
  then show ?thesis
    by (simp add: processLoanOffer_def processLoanOffer_body_def own_prop_def sample_token_ok
        config_def)
qed


lemma sequence_exn_Inr:
  "list_all (\<lambda>m. \<exists>v. m = Inr v) ms \<Longrightarrow> \<exists>vs. sequence_exn ms = Inr vs"
  by (induction ms) auto

lemma stringable_toString: "stringable v \<Longrightarrow> \<exists>s. toString rt v = Inr s"
proof (induction v)
  case (Arr xs)
  have "list_all (\<lambda>m. \<exists>v. m = Inr v)
          (map (\<lambda>x. if x = Undefined \<or> x = Null then Inr [] else toString rt x) xs)"
    using Arr by (auto simp add: list_all_iff)
  then obtain vs where
    "sequence_exn (map (\<lambda>x. if x = Undefined \<or> x = Null then Inr [] else toString rt x) xs)
       = Inr vs"
    using sequence_exn_Inr by blast
  then show ?case by simp
qed simp_all

lemma first_failure_no_throw:
  "list_all (\<lambda>x. x = Pass \<or> (\<exists>r. x = Fail r)) rules \<Longrightarrow> \<exists>r. first_failure rules = Inr r"
  by (induction rules) auto

lemma rule_of_Inr: "rule_of (Inr b) r = Pass \<or> rule_of (Inr b) r = Fail r"
  by (simp add: rule_of_def)

section \<open>Exceptions of the validator\<close>

text \<open>
  Claim C9 as amended. \<open>validateLoanRequest\<close> returns a result for every field map
  whose order and transaction identifiers convert to a string without throwing (every
  primitive value, \<open>null\<close> and \<open>undefined\<close> included, and every array or object
  with no own \<open>toString\<close> property inside). It throws a \<open>TypeError\<close> when the data
  are \<open>null\<close> or \<open>undefined\<close>. Whatever it throws, \<open>processLoanOffer\<close> catches
  and returns as the server-error response.
\<close>

theorem validator_returns:
  "(stringable (own_prop kvs ''orderId'') \<longrightarrow> stringable (own_prop kvs ''transactionId'') \<longrightarrow>
      (\<exists>r. validateLoanRequest rt (Obj kvs) = Inr r))
   \<and> validateLoanRequest rt Null = Inl (TypeError (cannotReadMessage rt Null ''orderId''))
   \<and> validateLoanRequest rt Undefined
       = Inl (TypeError (cannotReadMessage rt Undefined ''orderId''))
   \<and> (validateLoanRequest rt d = Inl e \<longrightarrow>
        get_prop rt requestData ''token'' = Inr token \<longrightarrow>
        validateToken rt token = Inr ok \<longrightarrow> truthy ok \<longrightarrow>
        get_prop rt requestData ''data'' = Inr d \<longrightarrow>
        processLoanOffer rt requestData
          = (serverError rt e,
             [Call FnValidateToken, Call FnValidateLoanRequest, ConsoleError]))"
proof (intro conjI impI)
  assume a: "stringable (own_prop kvs ''orderId'')"
    and b: "stringable (own_prop kvs ''transactionId'')"
  obtain sa where sa: "toString rt (own_prop kvs ''orderId'') = Inr sa"
    using stringable_toString[OF a] by blast
  obtain sb where sb: "toString rt (own_prop kvs ''transactionId'') = Inr sb"
    using stringable_toString[OF b] by blast
  have "list_all (\<lambda>x. x = Pass \<or> (\<exists>r. x = Fail r)) (rules_in_order rt (Obj kvs))"
    unfolding rules_in_order_def format_rule_def range_rule_def downpayment_rule_def
      required_rule_def
    using rule_of_Inr by (auto simp add: regex_test_def sa sb split: option.splits)
  then show "\<exists>r. validateLoanRequest rt (Obj kvs) = Inr r"
    using first_failure_no_throw by (simp add: validate_first_failure)
next
  show "validateLoanRequest rt Null = Inl (TypeError (cannotReadMessage rt Null ''orderId''))"
    by (simp add: validateLoanRequest_def requiredFields_def)
  show "validateLoanRequest rt Undefined
          = Inl (TypeError (cannotReadMessage rt Undefined ''orderId''))"
    by (simp add: validateLoanRequest_def requiredFields_def)
next
  assume "validateLoanRequest rt d = Inl e" "get_prop rt requestData ''token'' = Inr token"
    "validateToken rt token = Inr ok" "truthy ok" "get_prop rt requestData ''data'' = Inr d"
  then show "processLoanOffer rt requestData
          = (serverError rt e,
             [Call FnValidateToken, Call FnValidateLoanRequest, ConsoleError])"
    using processLoanOffer_throws by blast
qed

text \<open>
  Claim C9 says that \<open>validateLoanRequest\<close> never throws, whatever the field values.
  For the order identifier \<open>{"toString": 1}\<close> the regular expression's conversion of
  its argument to a string throws.
\<close>

theorem validator_throws_counterexample:
  "validateLoanRequest sample_runtime
     (loan_request (Obj [(''toString'', Num (Fin 1))]) (Str ''TXN1234'') (Num (Fin 50000))
        (Num (Fin 12)) (Num (Fin 12)) (Num (Fin 0)))
   = Inl (TypeError ''Cannot convert object to primitive value'')"
  by (simp add: sample_eval sample_runtime_def)

theorem validator_returns_witness:
  "stringable (own_prop
      [(''orderId'', Arr [Str ''ORD123456'']), (''transactionId'', Obj [(''id'', Num (Fin 7))]),
       (''loanAmount'', Num (Fin 50000)), (''roi'', Num (Fin 12)), (''tenure'', Num (Fin 12)),
       (''downpayment'', Num (Fin 0)), (''processingFee'', Num (Fin 500)),
       (''tvsTransactionId'', Str ''TVS0001'')] ''orderId'')
   \<and> stringable (own_prop
      [(''orderId'', Arr [Str ''ORD123456'']), (''transactionId'', Obj [(''id'', Num (Fin 7))]),
       (''loanAmount'', Num (Fin 50000)), (''roi'', Num (Fin 12)), (''tenure'', Num (Fin 12)),
       (''downpayment'', Num (Fin 0)), (''processingFee'', Num (Fin 500)),
       (''tvsTransactionId'', Str ''TVS0001'')] ''transactionId'')
   \<and> validateLoanRequest sample_runtime
        (Obj [(''orderId'', Arr [Str ''ORD123456'']),
              (''transactionId'', Obj [(''id'', Num (Fin 7))]),
              (''loanAmount'', Num (Fin 50000)), (''roi'', Num (Fin 12)),
              (''tenure'', Num (Fin 12)), (''downpayment'', Num (Fin 0)),
              (''processingFee'', Num (Fin 500)), (''tvsTransactionId'', Str ''TVS0001'')])
       = Inr \<lparr>isValid = False, errorCode = Some ''E002'',
              message = ''Transaction ID format is invalid''\<rparr>
   \<and> validateLoanRequest sample_runtime
        (loan_request (Obj [(''toString'', Num (Fin 1))]) (Str ''TXN1234'') (Num (Fin 50000))
           (Num (Fin 12)) (Num (Fin 12)) (Num (Fin 0)))
       = Inl (TypeError ''Cannot convert object to primitive value'')
   \<and> processLoanOffer sample_runtime
        (Obj [(''token'', Str sample_token),
              (''data'', loan_request (Obj [(''toString'', Num (Fin 1))]) (Str ''TXN1234'')
                           (Num (Fin 50000)) (Num (Fin 12)) (Num (Fin 12)) (Num (Fin 0)))])
       = (errorResponse (Some ''E999'') ''Cannot convert object to primitive value'',
          [Call FnValidateToken, Call FnValidateLoanRequest, ConsoleError])"
proof -
  let ?kvs = "[(''orderId'', Arr [Str ''ORD123456'']),
       (''transactionId'', Obj [(''id'', Num (Fin 7))]),
       (''loanAmount'', Num (Fin 50000)), (''roi'', Num (Fin 12)), (''tenure'', Num (Fin 12)),
       (''downpayment'', Num (Fin 0)), (''processingFee'', Num (Fin 500)),
       (''tvsTransactionId'', Str ''TVS0001'')]"
  let ?d = "loan_request (Obj [(''toString'', Num (Fin 1))]) (Str ''TXN1234'')
              (Num (Fin 50000)) (Num (Fin 12)) (Num (Fin 12)) (Num (Fin 0))"
  let ?req = "Obj [(''token'', Str sample_token), (''data'', ?d)]"
  let ?e = "TypeError ''Cannot convert object to primitive value''"
  have s: "stringable (own_prop ?kvs ''orderId'')" "stringable (own_prop ?kvs ''transactionId'')"
    by (simp_all add: own_prop_def)
  have th: "validateLoanRequest sample_runtime ?d = Inl ?e"
    by (simp add: sample_eval sample_runtime_def)
  have t: "get_prop sample_runtime ?req ''token'' = Inr (Str sample_token)"
    by (simp add: own_prop_def)
  have d: "get_prop sample_runtime ?req ''data'' = Inr ?d"
    by (simp add: own_prop_def)
  note v = validator_returns[of ?kvs sample_runtime ?d ?e ?req "Str sample_token" "Bool True"]
  obtain r where r: "validateLoanRequest sample_runtime (Obj ?kvs) = Inr r"
    using v s by blast
  have "validateLoanRequest sample_runtime (Obj ?kvs)
          = Inr \<lparr>isValid = False, errorCode = Some ''E002'',
                 message = ''Transaction ID format is invalid''\<rparr>"
    by (simp add: sample_eval)
  with r have 1: "validateLoanRequest sample_runtime (Obj ?kvs)
          = Inr \<lparr>isValid = False, errorCode = Some ''E002'',
                 message = ''Transaction ID format is invalid''\<rparr>"
    by simp
  have 2: "processLoanOffer sample_runtime ?req
          = (serverError sample_runtime ?e,
             [Call FnValidateToken, Call FnValidateLoanRequest, ConsoleError])"
    using v th t d sample_token_ok[of sample_runtime] by simp
  have 3: "serverError sample_runtime ?e
             = errorResponse (Some ''E999'') ''Cannot convert object to primitive value''"
    by (simp add: sample_runtime_def config_def)
  show ?thesis using s 1 th 2 3 by simp
qed

section \<open>The totals of a schedule\<close>






end
